theory Spec2Isabelle
  imports Main "HOL-Library.AList" "HOL-Library.Char_ord" "HOL-Library.List_Lexorder"
begin

section \<open>Data model (lib/types)\<close>

text \<open>
  The enumerations of \<^verbatim>\<open>types.ts\<close>. The constructors are the source's string
  literals, capitalised.
\<close>

datatype TaskStatus =
  Planning | Pending_approval | Inbox | Assigned | In_progress | Testing | Review | Done | Blocked

datatype TaskSource = Human | Agent

datatype ApprovalStatus = Pending | Approved | Rejected

datatype TaskPriority = Low | Normal | High | Urgent

text \<open>
  The \<^verbatim>\<open>tags\<close> column of the \<^verbatim>\<open>tasks\<close> table is TEXT: it holds the string that
  \<^verbatim>\<open>JSON.stringify\<close> makes of a string array. \<open>JsonText xs\<close> is that string, named by
  the array it encodes; \<^verbatim>\<open>JSON.parse\<close> gives the array back.
\<close>

datatype json_text = JsonText "string list"

definition JSON_stringify :: "string list \<Rightarrow> json_text" where
  "JSON_stringify xs = JsonText xs"

fun JSON_parse :: "json_text \<Rightarrow> string list" where
  "JSON_parse (JsonText xs) = xs"

text \<open>
  The fields of the \<^verbatim>\<open>Task\<close> interface that the plan routes read or write. The type
  of \<^verbatim>\<open>tags\<close> is a parameter: a row of the table carries \<open>json_text option\<close> (the column
  is nullable), an object built by a handler carries the array \<open>string list\<close>.
  \<^verbatim>\<open>id\<close> is \<open>task_id\<close> here.
\<close>

record 'tg Task =
  task_id :: string
  title :: string
  description :: "string option"
  status :: TaskStatus
  priority :: TaskPriority
  parent_task_id :: "string option"
  workspace_id :: string
  business_id :: string
  source :: TaskSource
  tags :: 'tg
  approval_status :: "ApprovalStatus option"
  approved_at :: "string option"
  approved_by :: "string option"
  color :: "string option"
  sort_order :: int
  agent_id :: "string option"
  openclaw_session_key :: "string option"
  created_at :: string
  updated_at :: string

type_synonym task_row = "json_text option Task"

type_synonym task_obj = "string list Task"

text \<open>A task object with its joined \<^verbatim>\<open>subtasks\<close>: the payload the handlers return.\<close>

record plan_obj = "string list Task" +
  subtasks :: "task_obj list"

text \<open>\<^verbatim>\<open>CreateTaskRequest\<close> and \<^verbatim>\<open>CreateTaskPlanRequest\<close>, with the fields the route reads.\<close>

record CreateTaskRequest =
  req_title :: string
  req_description :: "string option"
  req_priority :: "TaskPriority option"
  req_workspace_id :: "string option"
  req_business_id :: "string option"
  req_tags :: "string list option"
  req_color :: "string option"

record CreateTaskPlanRequest =
  parent_task :: "CreateTaskRequest option"
  req_subtasks :: "CreateTaskRequest list option"
  req_agent_id :: string
  session_key :: "string option"

text \<open>A row of \<^verbatim>\<open>task_activities\<close>. The metadata column holds the JSON text of \<^verbatim>\<open>{ reason }\<close>.\<close>

datatype activity_metadata = ReasonJson string

record task_activity =
  activity_id :: string
  activity_task_id :: string
  activity_agent_id :: "string option"
  activity_type :: string
  message :: string
  metadata :: "activity_metadata option"
  activity_created_at :: string

section \<open>Events and socket messages\<close>

datatype SSEEventType = Plan_created | Plan_approved | Plan_rejected

record SSEEvent =
  sse_type :: SSEEventType
  sse_payload :: plan_obj

datatype PlanUpdateStatus = Created | Updated | Approved_update | Rejected_update

text \<open>\<^verbatim>\<open>WSPlanUpdate\<close>. The routes put the rows they read into \<^verbatim>\<open>subtasks\<close> as they are.\<close>

record WSPlanUpdate =
  wsu_parent_task_id :: string
  wsu_subtasks :: "task_row list"
  wsu_status :: PlanUpdateStatus

datatype WSPayload =
  ConnectedPayload string string
  | SubscribedPayload "string list" "string list"
  | PlanUpdatePayload WSPlanUpdate

datatype WSMessageType =
  Connected | Subscribed | Subscribe | Unsubscribe | Task_update | Plan_update
  | Approval_request | Approval_response | Progress_update | Error

text \<open>
  An outbound frame. The two frames that \<^verbatim>\<open>send\<close> gets from the connection handler
  and from \<^verbatim>\<open>handleSubscribe\<close> have no \<^verbatim>\<open>timestamp\<close> field.
\<close>

record WSMessage =
  ws_type :: WSMessageType
  ws_payload :: WSPayload
  timestamp :: "string option"

text \<open>An inbound frame: \<^verbatim>\<open>{ type, payload: { workspaces?, tasks? } }\<close>.\<close>

record SubscriptionPayload =
  workspaces :: "string list option"
  tasks :: "string list option"

record InboundMessage =
  in_type :: WSMessageType
  in_payload :: SubscriptionPayload

section \<open>JavaScript helpers\<close>

text \<open>\<^verbatim>\<open>x || d\<close> on an optional string: \<^verbatim>\<open>undefined\<close>, \<^verbatim>\<open>null\<close> and \<^verbatim>\<open>''\<close> are falsy.\<close>

definition truthy :: "string option \<Rightarrow> bool" where
  "truthy x = (case x of None \<Rightarrow> False | Some s \<Rightarrow> s \<noteq> [])"

definition or_default :: "string option \<Rightarrow> string \<Rightarrow> string" where
  "or_default x d = (case x of None \<Rightarrow> d | Some s \<Rightarrow> if s = [] then d else s)"

definition or_null :: "string option \<Rightarrow> string option" where
  "or_null x = (if truthy x then x else None)"

text \<open>The array spread \<^verbatim>\<open>...(t.tags || [])\<close>.\<close>

definition tags_or_empty :: "string list option \<Rightarrow> string list" where
  "tags_or_empty x = (case x of None \<Rightarrow> [] | Some xs \<Rightarrow> xs)"

text \<open>A number in a template string: its decimal digits.\<close>

fun string_of_nat :: "nat \<Rightarrow> string" where
  "string_of_nat n =
     (if n < 10 then [char_of (48 + n)]
      else string_of_nat (n div 10) @ [char_of (48 + n mod 10)])"

declare string_of_nat.simps [simp del]

text \<open>
  A \<^verbatim>\<open>Set<string>\<close> keeps its elements in insertion order and without duplicates;
  a \<^verbatim>\<open>Map\<close> is an association list in insertion order (\<open>AList.update\<close> replaces
  in place or appends, \<open>AList.delete\<close> removes).
\<close>

definition set_add :: "string \<Rightarrow> string list \<Rightarrow> string list" where
  "set_add x xs = (if x \<in> set xs then xs else xs @ [x])"

definition set_delete :: "string \<Rightarrow> string list \<Rightarrow> string list" where
  "set_delete x xs = removeAll x xs"

definition set_has :: "string list \<Rightarrow> string \<Rightarrow> bool" where
  "set_has xs x = (x \<in> set xs)"

section \<open>The socket server (MCWebSocketServer)\<close>

datatype ReadyState = CONNECTING | OPEN | CLOSING | CLOSED

text \<open>
  \<^verbatim>\<open>Client\<close>. Of the transport handle \<^verbatim>\<open>ws\<close> the server reads only \<^verbatim>\<open>readyState\<close>,
  which the transport sets: no function of the server changes it.
\<close>

record Client =
  readyState :: ReadyState
  client_id :: string
  subscribedWorkspaces :: "string list"
  subscribedTasks :: "string list"

text \<open>
  The server object. \<open>sent\<close> is the trace of \<^verbatim>\<open>ws.send\<close> calls: the frame and the id of
  the client whose socket got it.
\<close>

record MCWebSocketServer =
  clients :: "(string \<times> Client) list"
  clientIdCounter :: nat
  sent :: "(string \<times> WSMessage) list"

definition new_server :: MCWebSocketServer where
  "new_server = \<lparr>clients = [], clientIdCounter = 0, sent = []\<rparr>"

definition send :: "Client \<Rightarrow> WSMessage \<Rightarrow> MCWebSocketServer \<Rightarrow> MCWebSocketServer" where
  "send c data srv =
     (if readyState c = OPEN then srv\<lparr>sent := sent srv @ [(client_id c, data)]\<rparr> else srv)"

text \<open>The \<^verbatim>\<open>connection\<close> handler of \<^verbatim>\<open>start\<close>; \<open>now\<close> is \<^verbatim>\<open>new Date().toISOString()\<close>.\<close>

definition on_connection :: "string \<Rightarrow> MCWebSocketServer \<Rightarrow> MCWebSocketServer" where
  "on_connection now srv =
     (let n = Suc (clientIdCounter srv);
          clientId = ''client_'' @ string_of_nat n;
          client = \<lparr>readyState = OPEN, client_id = clientId,
                    subscribedWorkspaces = [''default''], subscribedTasks = []\<rparr>;
          srv1 = srv\<lparr>clientIdCounter := n, clients := AList.update clientId client (clients srv)\<rparr>
      in send client
           \<lparr>ws_type = Connected, ws_payload = ConnectedPayload clientId now, timestamp = None\<rparr>
           srv1)"

text \<open>The \<^verbatim>\<open>close\<close> and \<^verbatim>\<open>error\<close> handlers.\<close>

definition on_close :: "string \<Rightarrow> MCWebSocketServer \<Rightarrow> MCWebSocketServer" where
  "on_close clientId srv = srv\<lparr>clients := AList.delete clientId (clients srv)\<rparr>"

definition for_each_opt :: "('a \<Rightarrow> 'b \<Rightarrow> 'b) \<Rightarrow> 'a list option \<Rightarrow> 'b \<Rightarrow> 'b" where
  "for_each_opt f xs acc = (case xs of None \<Rightarrow> acc | Some ys \<Rightarrow> fold f ys acc)"

text \<open>
  \<^verbatim>\<open>handleSubscribe\<close> and \<^verbatim>\<open>handleUnsubscribe\<close> change the client object in place:
  here they return the changed object.
\<close>

definition handleSubscribe ::
  "Client \<Rightarrow> SubscriptionPayload \<Rightarrow> MCWebSocketServer \<Rightarrow> Client \<times> MCWebSocketServer" where
  "handleSubscribe client payload srv =
     (let client1 = client\<lparr>
            subscribedWorkspaces :=
              for_each_opt set_add (workspaces payload) (subscribedWorkspaces client),
            subscribedTasks :=
              for_each_opt set_add (tasks payload) (subscribedTasks client)\<rparr>
      in (client1,
          send client1
            \<lparr>ws_type = Subscribed,
             ws_payload = SubscribedPayload (subscribedWorkspaces client1) (subscribedTasks client1),
             timestamp = None\<rparr>
            srv))"

definition handleUnsubscribe :: "Client \<Rightarrow> SubscriptionPayload \<Rightarrow> Client" where
  "handleUnsubscribe client payload =
     client\<lparr>
       subscribedWorkspaces :=
         for_each_opt set_delete (workspaces payload) (subscribedWorkspaces client),
       subscribedTasks :=
         for_each_opt set_delete (tasks payload) (subscribedTasks client)\<rparr>"

text \<open>
  \<^verbatim>\<open>handleMessage\<close> runs in the \<^verbatim>\<open>message\<close> handler of one connection, on the client
  object that \<^verbatim>\<open>clients\<close> holds under that connection's id: the changed object is the
  entry of the map.
\<close>

definition handleMessage :: "string \<Rightarrow> InboundMessage \<Rightarrow> MCWebSocketServer \<Rightarrow> MCWebSocketServer" where
  "handleMessage clientId msg srv =
     (case map_of (clients srv) clientId of
        None \<Rightarrow> srv
      | Some client \<Rightarrow>
          (case in_type msg of
             Subscribe \<Rightarrow>
               (let (client1, srv1) = handleSubscribe client (in_payload msg) srv
                in srv1\<lparr>clients := AList.update clientId client1 (clients srv1)\<rparr>)
           | Unsubscribe \<Rightarrow>
               srv\<lparr>clients :=
                 AList.update clientId (handleUnsubscribe client (in_payload msg)) (clients srv)\<rparr>
           | _ \<Rightarrow> srv))"

definition broadcastToWorkspace :: "string \<Rightarrow> WSMessage \<Rightarrow> MCWebSocketServer \<Rightarrow> MCWebSocketServer" where
  "broadcastToWorkspace workspaceId msg srv =
     fold (\<lambda>(k, client) s.
             if set_has (subscribedWorkspaces client) workspaceId
                \<or> set_has (subscribedWorkspaces client) ''*''
             then send client msg s else s)
          (clients srv) srv"

text \<open>
  \<^verbatim>\<open>broadcastPlanUpdate(update, workspaceId = 'default')\<close>: the second argument is
  optional, \<open>None\<close> when the caller leaves it out.
\<close>

definition broadcastPlanUpdate ::
  "string \<Rightarrow> WSPlanUpdate \<Rightarrow> string option \<Rightarrow> MCWebSocketServer \<Rightarrow> MCWebSocketServer" where
  "broadcastPlanUpdate now update workspaceId srv =
     broadcastToWorkspace (case workspaceId of None \<Rightarrow> ''default'' | Some w \<Rightarrow> w)
       \<lparr>ws_type = Plan_update, ws_payload = PlanUpdatePayload update, timestamp = Some now\<rparr>
       srv"

text \<open>The frames a client's socket has been sent.\<close>

definition received :: "string \<Rightarrow> MCWebSocketServer \<Rightarrow> WSMessage list" where
  "received clientId srv = map snd (filter (\<lambda>p. fst p = clientId) (sent srv))"

section \<open>The record store and the other collaborators\<close>

text \<open>
  The state the route handlers work on: the \<^verbatim>\<open>tasks\<close> table (rows in insertion
  order), the \<^verbatim>\<open>task_activities\<close> table (its schema is not among the sources: an insert
  appends a row), the events handed to \<^verbatim>\<open>broadcastEvent\<close>, and the socket server.
\<close>

record world =
  db_tasks :: "task_row list"
  db_task_activities :: "task_activity list"
  sse_events :: "SSEEvent list"
  wsServer :: MCWebSocketServer

text \<open>
  The handlers' failures. \<open>ValidationError\<close> is a 400 response with its message,
  \<open>NotFoundError\<close> the 404 \<^verbatim>\<open>Task plan not found\<close>, \<open>InvalidStateError\<close> the 400
  \<^verbatim>\<open>Task plan is not pending approval\<close>, \<open>StoreError\<close> the 500 of the \<^verbatim>\<open>catch\<close> block.
\<close>

datatype error = ValidationError string | NotFoundError | InvalidStateError | StoreError

fun http_status :: "error \<Rightarrow> nat" where
  "http_status (ValidationError m) = 400"
| "http_status NotFoundError = 404"
| "http_status InvalidStateError = 400"
| "http_status StoreError = 500"

text \<open>
  \<^verbatim>\<open>INSERT INTO tasks\<close>: \<^verbatim>\<open>id\<close> is the primary key of the table, so the statement throws
  (\<open>None\<close>) when a row with that id exists.
\<close>

definition insert_task :: "task_row \<Rightarrow> task_row list \<Rightarrow> task_row list option" where
  "insert_task r rows =
     (if task_id r \<in> set (map task_id rows) then None else Some (rows @ [r]))"

text \<open>\<^verbatim>\<open>SELECT * FROM tasks WHERE id = ?\<close> with \<^verbatim>\<open>.get\<close>: the first row, if any.\<close>

definition select_task :: "task_row list \<Rightarrow> string \<Rightarrow> task_row option" where
  "select_task rows i = find (\<lambda>r. task_id r = i) rows"

text \<open>\<^verbatim>\<open>SELECT * FROM tasks WHERE parent_task_id = ? ORDER BY sort_order\<close> with \<^verbatim>\<open>.all\<close>.\<close>

definition select_subtasks :: "task_row list \<Rightarrow> string \<Rightarrow> task_row list" where
  "select_subtasks rows i = sort_key sort_order (filter (\<lambda>r. parent_task_id r = Some i) rows)"

text \<open>The \<^verbatim>\<open>SET\<close> clause that approve and reject share, with its five columns.\<close>

definition set_decision ::
  "ApprovalStatus \<Rightarrow> TaskStatus \<Rightarrow> string \<Rightarrow> string \<Rightarrow> task_row \<Rightarrow> task_row" where
  "set_decision a st now who r =
     r\<lparr>approval_status := Some a, approved_at := Some now, approved_by := Some who,
       status := st, updated_at := now\<rparr>"

text \<open>\<^verbatim>\<open>UPDATE tasks SET ... WHERE id = ?\<close> and \<^verbatim>\<open>UPDATE tasks SET ... WHERE parent_task_id = ?\<close>.\<close>

definition update_parent ::
  "ApprovalStatus \<Rightarrow> TaskStatus \<Rightarrow> string \<Rightarrow> string \<Rightarrow> string \<Rightarrow> task_row list \<Rightarrow> task_row list" where
  "update_parent a st now who i rows =
     map (\<lambda>r. if task_id r = i then set_decision a st now who r else r) rows"

definition update_subtasks ::
  "ApprovalStatus \<Rightarrow> TaskStatus \<Rightarrow> string \<Rightarrow> string \<Rightarrow> string \<Rightarrow> task_row list \<Rightarrow> task_row list" where
  "update_subtasks a st now who i rows =
     map (\<lambda>r. if parent_task_id r = Some i then set_decision a st now who r else r) rows"

text \<open>
  The handlers call \<^verbatim>\<open>db.prepare(...).run(...)\<close> once per statement and open no
  transaction: each statement is committed when it returns. A handler's writes to
  \<^verbatim>\<open>tasks\<close> are a list of statements; \<open>run_statements\<close> executes them in order, and a
  run that is cut after the first \<open>n\<close> has committed \<open>take n\<close> of them.
\<close>

definition run_statements :: "(task_row list \<Rightarrow> task_row list) list \<Rightarrow> task_row list \<Rightarrow> task_row list" where
  "run_statements stmts rows = fold (\<lambda>f t. f t) stmts rows"

definition decision_statements ::
  "ApprovalStatus \<Rightarrow> TaskStatus \<Rightarrow> string \<Rightarrow> string \<Rightarrow> string \<Rightarrow> (task_row list \<Rightarrow> task_row list) list" where
  "decision_statements a st now who i = [update_parent a st now who i, update_subtasks a st now who i]"

text \<open>
  The object spread \<^verbatim>\<open>{ ...row, tags: JSON.parse(row.tags || '[]') }\<close>: every field of
  the row, with \<^verbatim>\<open>tags\<close> replaced (\<open>retag\<close>).
\<close>

definition parse_tags :: "json_text option \<Rightarrow> string list" where
  "parse_tags t = (case t of None \<Rightarrow> [] | Some j \<Rightarrow> JSON_parse j)"

definition retag :: "('a \<Rightarrow> 'b) \<Rightarrow> 'a Task \<Rightarrow> 'b Task" where
  "retag f r =
     \<lparr>task_id = task_id r, title = title r, description = description r, status = status r,
      priority = priority r, parent_task_id = parent_task_id r, workspace_id = workspace_id r,
      business_id = business_id r, source = source r, tags = f (tags r),
      approval_status = approval_status r, approved_at = approved_at r,
      approved_by = approved_by r, color = color r, sort_order = sort_order r,
      agent_id = agent_id r, openclaw_session_key = openclaw_session_key r,
      created_at = created_at r, updated_at = updated_at r\<rparr>"

definition with_parsed_tags :: "task_row \<Rightarrow> task_obj" where
  "with_parsed_tags r = retag parse_tags r"

definition with_subtasks :: "task_obj \<Rightarrow> task_obj list \<Rightarrow> plan_obj" where
  "with_subtasks t sts =
     \<lparr>task_id = task_id t, title = title t, description = description t, status = status t,
      priority = priority t, parent_task_id = parent_task_id t, workspace_id = workspace_id t,
      business_id = business_id t, source = source t, tags = tags t,
      approval_status = approval_status t, approved_at = approved_at t,
      approved_by = approved_by t, color = color t, sort_order = sort_order t,
      agent_id = agent_id t, openclaw_session_key = openclaw_session_key t,
      created_at = created_at t, updated_at = updated_at t, subtasks = sts\<rparr>"

text \<open>
  Modelled from the spec: \<^verbatim>\<open>broadcastEvent\<close> of \<^verbatim>\<open>lib/events\<close> is not among the sources.
  The push-stream registry sends the same envelope to every open stream, with no
  subscription filter; the call is recorded in \<open>sse_events\<close>.
\<close>

definition broadcastEvent :: "SSEEvent \<Rightarrow> world \<Rightarrow> world" where
  "broadcastEvent ev w = w\<lparr>sse_events := sse_events w @ [ev]\<rparr>"

section \<open>POST /api/plans\<close>

text \<open>
  \<open>now\<close> is the handler's \<^verbatim>\<open>new Date().toISOString()\<close>; \<open>uuid k\<close> is what the
  \<open>k\<close>-th call of \<^verbatim>\<open>uuidv4()\<close> in the handler returns (the parent's id, then one id
  per subtask, then the activity's id).
\<close>

definition priority_or_normal :: "TaskPriority option \<Rightarrow> TaskPriority" where
  "priority_or_normal p = (case p of None \<Rightarrow> Normal | Some x \<Rightarrow> x)"

definition parent_row ::
  "string \<Rightarrow> string \<Rightarrow> string \<Rightarrow> string \<Rightarrow> string option \<Rightarrow> CreateTaskRequest \<Rightarrow> task_row" where
  "parent_row now parentId workspaceId agent sk pt =
     \<lparr>task_id = parentId, title = req_title pt, description = or_null (req_description pt),
      status = Pending_approval, priority = priority_or_normal (req_priority pt),
      parent_task_id = None, workspace_id = workspaceId,
      business_id = or_default (req_business_id pt) ''default'', source = Agent,
      tags = Some (JSON_stringify (''agentic'' # tags_or_empty (req_tags pt))),
      approval_status = Some Pending, approved_at = None, approved_by = None,
      color = Some (or_default (req_color pt) ''#a855f7''), sort_order = 0,
      agent_id = Some agent, openclaw_session_key = or_null sk,
      created_at = now, updated_at = now\<rparr>"

definition subtask_row ::
  "string \<Rightarrow> string \<Rightarrow> string \<Rightarrow> string \<Rightarrow> string \<Rightarrow> nat \<Rightarrow> CreateTaskRequest \<Rightarrow> task_row" where
  "subtask_row now subtaskId parentId workspaceId agent i subtask =
     \<lparr>task_id = subtaskId, title = req_title subtask,
      description = or_null (req_description subtask),
      status = Pending_approval, priority = priority_or_normal (req_priority subtask),
      parent_task_id = Some parentId, workspace_id = workspaceId,
      business_id = or_default (req_business_id subtask) ''default'', source = Agent,
      tags = Some (JSON_stringify (''agentic'' # tags_or_empty (req_tags subtask))),
      approval_status = Some Pending, approved_at = None, approved_by = None,
      color = Some (or_default (req_color subtask) ''#a855f7''), sort_order = int i,
      agent_id = Some agent, openclaw_session_key = None,
      created_at = now, updated_at = now\<rparr>"

definition subtask_obj ::
  "string \<Rightarrow> string \<Rightarrow> string \<Rightarrow> string \<Rightarrow> string \<Rightarrow> nat \<Rightarrow> CreateTaskRequest \<Rightarrow> task_obj" where
  "subtask_obj now subtaskId parentId workspaceId agent i subtask =
     \<lparr>task_id = subtaskId, title = req_title subtask, description = req_description subtask,
      status = Pending_approval, priority = priority_or_normal (req_priority subtask),
      parent_task_id = Some parentId, workspace_id = workspaceId,
      business_id = or_default (req_business_id subtask) ''default'', source = Agent,
      tags = ''agentic'' # tags_or_empty (req_tags subtask),
      approval_status = Some Pending, approved_at = None, approved_by = None,
      color = Some (or_default (req_color subtask) ''#a855f7''), sort_order = int i,
      agent_id = Some agent, openclaw_session_key = None,
      created_at = now, updated_at = now\<rparr>"

definition created_parent ::
  "string \<Rightarrow> string \<Rightarrow> string \<Rightarrow> string \<Rightarrow> string option \<Rightarrow> CreateTaskRequest \<Rightarrow> task_obj list
   \<Rightarrow> plan_obj" where
  "created_parent now parentId workspaceId agent sk pt createdSubtasks =
     \<lparr>task_id = parentId, title = req_title pt, description = req_description pt,
      status = Pending_approval, priority = priority_or_normal (req_priority pt),
      parent_task_id = None, workspace_id = workspaceId,
      business_id = or_default (req_business_id pt) ''default'', source = Agent,
      tags = ''agentic'' # tags_or_empty (req_tags pt),
      approval_status = Some Pending, approved_at = None, approved_by = None,
      color = Some (or_default (req_color pt) ''#a855f7''), sort_order = 0,
      agent_id = Some agent, openclaw_session_key = sk,
      created_at = now, updated_at = now, subtasks = createdSubtasks\<rparr>"

text \<open>
  The loop over the submitted subtasks, from index \<open>i\<close>: it inserts a row and pushes the
  object onto \<^verbatim>\<open>createdSubtasks\<close>. \<open>Inl\<close> is the table at the moment an insert throws.
\<close>

fun create_subtasks ::
  "string \<Rightarrow> (nat \<Rightarrow> string) \<Rightarrow> string \<Rightarrow> string \<Rightarrow> string \<Rightarrow> nat \<Rightarrow> CreateTaskRequest list
   \<Rightarrow> task_row list \<Rightarrow> task_obj list \<Rightarrow> task_row list + task_row list \<times> task_obj list" where
  "create_subtasks now uuid parentId workspaceId agent i [] rows createdSubtasks =
     Inr (rows, createdSubtasks)"
| "create_subtasks now uuid parentId workspaceId agent i (subtask # rest) rows createdSubtasks =
     (let subtaskId = uuid (Suc i) in
      case insert_task (subtask_row now subtaskId parentId workspaceId agent i subtask) rows of
        None \<Rightarrow> Inl rows
      | Some rows1 \<Rightarrow>
          create_subtasks now uuid parentId workspaceId agent (Suc i) rest rows1
            (createdSubtasks @ [subtask_obj now subtaskId parentId workspaceId agent i subtask]))"

definition POST_plans ::
  "string \<Rightarrow> (nat \<Rightarrow> string) \<Rightarrow> CreateTaskPlanRequest \<Rightarrow> world \<Rightarrow> (error + plan_obj) \<times> world" where
  "POST_plans now uuid body w =
     (case parent_task body of
        None \<Rightarrow> (Inl (ValidationError ''Parent task title is required''), w)
      | Some pt \<Rightarrow>
          if req_title pt = [] then (Inl (ValidationError ''Parent task title is required''), w)
          else
            (case req_subtasks body of
               None \<Rightarrow> (Inl (ValidationError ''At least one subtask is required''), w)
             | Some sts \<Rightarrow>
                 if length sts = 0
                 then (Inl (ValidationError ''At least one subtask is required''), w)
                 else
                   (let workspaceId = or_default (req_workspace_id pt) ''default'';
                        parentId = uuid 0;
                        agent = req_agent_id body
                    in case insert_task
                              (parent_row now parentId workspaceId agent (session_key body) pt)
                              (db_tasks w) of
                         None \<Rightarrow> (Inl StoreError, w)
                       | Some rows1 \<Rightarrow>
                           (case create_subtasks now uuid parentId workspaceId agent 0 sts rows1 [] of
                              Inl rows2 \<Rightarrow> (Inl StoreError, w\<lparr>db_tasks := rows2\<rparr>)
                            | Inr (rows2, createdSubtasks) \<Rightarrow>
                                (let createdParent =
                                       created_parent now parentId workspaceId agent
                                         (session_key body) pt createdSubtasks;
                                     activity =
                                       \<lparr>activity_id = uuid (Suc (length sts)),
                                        activity_task_id = parentId,
                                        activity_agent_id = Some agent,
                                        activity_type = ''spawned'',
                                        message = ''Agent created task plan with ''
                                          @ string_of_nat (length sts) @ '' subtasks'',
                                        metadata = None,
                                        activity_created_at = now\<rparr>;
                                     w1 = w\<lparr>db_tasks := rows2,
                                            db_task_activities := db_task_activities w @ [activity]\<rparr>;
                                     w2 = broadcastEvent
                                            \<lparr>sse_type = Plan_created, sse_payload = createdParent\<rparr> w1
                                 in (Inr createdParent, w2))))))"

section \<open>POST /api/plans/[id]/approve and POST /api/plans/[id]/reject\<close>

text \<open>
  \<open>now\<close> is the handler's timestamp, \<open>now_ws\<close> the one \<^verbatim>\<open>broadcastPlanUpdate\<close> takes for
  its frame, \<open>activityId\<close> the handler's \<^verbatim>\<open>uuidv4()\<close>; \<open>approved_by\<close>, \<open>rejected_by\<close> and
  \<open>reason\<close> are the fields of the request body, which may be missing.
\<close>

definition POST_approve ::
  "string \<Rightarrow> string \<Rightarrow> string \<Rightarrow> string \<Rightarrow> string option \<Rightarrow> world \<Rightarrow> (error + plan_obj) \<times> world" where
  "POST_approve now now_ws activityId i approved_by_body w =
     (case select_task (db_tasks w) i of
        None \<Rightarrow> (Inl NotFoundError, w)
      | Some parentTask \<Rightarrow>
          if approval_status parentTask \<noteq> Some Pending then (Inl InvalidStateError, w)
          else
            (let who = or_default approved_by_body ''human'';
                 rows1 = run_statements (decision_statements Approved Inbox now who i) (db_tasks w);
                 activity =
                   \<lparr>activity_id = activityId, activity_task_id = i, activity_agent_id = None,
                    activity_type = ''status_changed'', message = ''Plan approved by '' @ who,
                    metadata = None, activity_created_at = now\<rparr>;
                 w1 = w\<lparr>db_tasks := rows1,
                        db_task_activities := db_task_activities w @ [activity]\<rparr>
             in case select_task rows1 i of
                  None \<Rightarrow> (Inl StoreError, w1)
                | Some updatedParent \<Rightarrow>
                    (let sts = select_subtasks rows1 i;
                         result = with_subtasks (with_parsed_tags updatedParent)
                                    (map with_parsed_tags sts);
                         w2 = broadcastEvent \<lparr>sse_type = Plan_approved, sse_payload = result\<rparr> w1;
                         w3 = w2\<lparr>wsServer :=
                                broadcastPlanUpdate now_ws
                                  \<lparr>wsu_parent_task_id = i, wsu_subtasks = sts,
                                   wsu_status = Approved_update\<rparr>
                                  None (wsServer w2)\<rparr>
                     in (Inr result, w3))))"

text \<open>The tail \<^verbatim>\<open>${reason ? `: ${reason}` : ''}\<close> of the activity message.\<close>

definition reason_suffix :: "string option \<Rightarrow> string" where
  "reason_suffix reason =
     (case reason of None \<Rightarrow> [] | Some r \<Rightarrow> if r = [] then [] else '': '' @ r)"

definition reason_metadata :: "string option \<Rightarrow> activity_metadata option" where
  "reason_metadata reason =
     (case reason of None \<Rightarrow> None | Some r \<Rightarrow> if r = [] then None else Some (ReasonJson r))"

definition POST_reject ::
  "string \<Rightarrow> string \<Rightarrow> string \<Rightarrow> string \<Rightarrow> string option \<Rightarrow> string option \<Rightarrow> world
   \<Rightarrow> (error + plan_obj) \<times> world" where
  "POST_reject now now_ws activityId i rejected_by_body reason w =
     (case select_task (db_tasks w) i of
        None \<Rightarrow> (Inl NotFoundError, w)
      | Some parentTask \<Rightarrow>
          if approval_status parentTask \<noteq> Some Pending then (Inl InvalidStateError, w)
          else
            (let who = or_default rejected_by_body ''human'';
                 rows1 = run_statements (decision_statements Rejected Blocked now who i) (db_tasks w);
                 activity =
                   \<lparr>activity_id = activityId, activity_task_id = i, activity_agent_id = None,
                    activity_type = ''status_changed'',
                    message = ''Plan rejected by '' @ who @ reason_suffix reason,
                    metadata = reason_metadata reason,
                    activity_created_at = now\<rparr>;
                 w1 = w\<lparr>db_tasks := rows1,
                        db_task_activities := db_task_activities w @ [activity]\<rparr>
             in case select_task rows1 i of
                  None \<Rightarrow> (Inl StoreError, w1)
                | Some updatedParent \<Rightarrow>
                    (let sts = select_subtasks rows1 i;
                         result = with_subtasks (with_parsed_tags updatedParent)
                                    (map with_parsed_tags sts);
                         w2 = broadcastEvent \<lparr>sse_type = Plan_rejected, sse_payload = result\<rparr> w1;
                         w3 = w2\<lparr>wsServer :=
                                broadcastPlanUpdate now_ws
                                  \<lparr>wsu_parent_task_id = i, wsu_subtasks = sts,
                                   wsu_status = Rejected_update\<rparr>
                                  None (wsServer w2)\<rparr>
                     in (Inr result, w3))))"

text \<open>
  The handlers stopped after their first \<open>n\<close> write statements, as when the process
  dies there. Every \<^verbatim>\<open>db.prepare(...).run(...)\<close> is committed when it returns and the
  handlers open no transaction, so the tables are those of the statements run so far; no
  response is sent (\<open>None\<close>) and nothing is broadcast. The guards write nothing and answer
  as before. From \<open>n = 3\<close> on all three statements have run and the handler goes on to its
  end.
\<close>

definition POST_approve_upto ::
  "nat \<Rightarrow> string \<Rightarrow> string \<Rightarrow> string \<Rightarrow> string \<Rightarrow> string option \<Rightarrow> world
   \<Rightarrow> (error + plan_obj) option \<times> world" where
  "POST_approve_upto n now now_ws activityId i approved_by_body w =
     (case select_task (db_tasks w) i of
        None \<Rightarrow> (Some (Inl NotFoundError), w)
      | Some parentTask \<Rightarrow>
          if approval_status parentTask \<noteq> Some Pending then (Some (Inl InvalidStateError), w)
          else if n = 0 then (None, w)
          else
            (let who = or_default approved_by_body ''human'';
                 w1 = w\<lparr>db_tasks := update_parent Approved Inbox now who i (db_tasks w)\<rparr>
             in if n = 1 then (None, w1)
                else
                  (let w2 = w1\<lparr>db_tasks := update_subtasks Approved Inbox now who i (db_tasks w1)\<rparr>
                   in if n = 2 then (None, w2)
                      else
                        (let activity =
                               \<lparr>activity_id = activityId, activity_task_id = i,
                                activity_agent_id = None, activity_type = ''status_changed'',
                                message = ''Plan approved by '' @ who, metadata = None,
                                activity_created_at = now\<rparr>;
                             w3 = w2\<lparr>db_task_activities := db_task_activities w2 @ [activity]\<rparr>
                         in case select_task (db_tasks w3) i of
                              None \<Rightarrow> (Some (Inl StoreError), w3)
                            | Some updatedParent \<Rightarrow>
                                (let sts = select_subtasks (db_tasks w3) i;
                                     result = with_subtasks (with_parsed_tags updatedParent)
                                                (map with_parsed_tags sts);
                                     w4 = broadcastEvent
                                            \<lparr>sse_type = Plan_approved, sse_payload = result\<rparr> w3;
                                     w5 = w4\<lparr>wsServer :=
                                            broadcastPlanUpdate now_ws
                                              \<lparr>wsu_parent_task_id = i, wsu_subtasks = sts,
                                               wsu_status = Approved_update\<rparr>
                                              None (wsServer w4)\<rparr>
                                 in (Some (Inr result), w5))))))"

definition POST_reject_upto ::
  "nat \<Rightarrow> string \<Rightarrow> string \<Rightarrow> string \<Rightarrow> string \<Rightarrow> string option \<Rightarrow> string option \<Rightarrow> world
   \<Rightarrow> (error + plan_obj) option \<times> world" where
  "POST_reject_upto n now now_ws activityId i rejected_by_body reason w =
     (case select_task (db_tasks w) i of
        None \<Rightarrow> (Some (Inl NotFoundError), w)
      | Some parentTask \<Rightarrow>
          if approval_status parentTask \<noteq> Some Pending then (Some (Inl InvalidStateError), w)
          else if n = 0 then (None, w)
          else
            (let who = or_default rejected_by_body ''human'';
                 w1 = w\<lparr>db_tasks := update_parent Rejected Blocked now who i (db_tasks w)\<rparr>
             in if n = 1 then (None, w1)
                else
                  (let w2 = w1\<lparr>db_tasks := update_subtasks Rejected Blocked now who i (db_tasks w1)\<rparr>
                   in if n = 2 then (None, w2)
                      else
                        (let activity =
                               \<lparr>activity_id = activityId, activity_task_id = i,
                                activity_agent_id = None, activity_type = ''status_changed'',
                                message = ''Plan rejected by '' @ who @ reason_suffix reason,
                                metadata = reason_metadata reason,
                                activity_created_at = now\<rparr>;
                             w3 = w2\<lparr>db_task_activities := db_task_activities w2 @ [activity]\<rparr>
                         in case select_task (db_tasks w3) i of
                              None \<Rightarrow> (Some (Inl StoreError), w3)
                            | Some updatedParent \<Rightarrow>
                                (let sts = select_subtasks (db_tasks w3) i;
                                     result = with_subtasks (with_parsed_tags updatedParent)
                                                (map with_parsed_tags sts);
                                     w4 = broadcastEvent
                                            \<lparr>sse_type = Plan_rejected, sse_payload = result\<rparr> w3;
                                     w5 = w4\<lparr>wsServer :=
                                            broadcastPlanUpdate now_ws
                                              \<lparr>wsu_parent_task_id = i, wsu_subtasks = sts,
                                               wsu_status = Rejected_update\<rparr>
                                              None (wsServer w4)\<rparr>
                                 in (Some (Inr result), w5))))))"

section \<open>GET /api/plans\<close>

fun approval_text :: "ApprovalStatus \<Rightarrow> string" where
  "approval_text Pending = ''pending''"
| "approval_text Approved = ''approved''"
| "approval_text Rejected = ''rejected''"

text \<open>
  The plain read of the plans: the parents of the workspace with the given approval
  status by \<^verbatim>\<open>created_at\<close>, newest first and rows of equal \<^verbatim>\<open>created_at\<close> in the order
  of the table (\<open>sort_key\<close> is stable, so the list is reversed before and after it), each
  with its subtasks by \<^verbatim>\<open>sort_order\<close> and with every \<^verbatim>\<open>tags\<close> column parsed.
\<close>

definition GET_plans :: "string option \<Rightarrow> string option \<Rightarrow> world \<Rightarrow> plan_obj list" where
  "GET_plans workspace_param status_param w =
     (let workspaceId = or_default workspace_param ''default'';
          st = or_default status_param ''pending'';
          parentTasks =
            rev (sort_key created_at
              (rev (filter (\<lambda>r. workspace_id r = workspaceId \<and> source r = Agent
                                \<and> parent_task_id r = None
                                \<and> map_option approval_text (approval_status r) = Some st)
                      (db_tasks w))))
      in map (\<lambda>parent.
                with_subtasks (with_parsed_tags parent)
                  (map with_parsed_tags (select_subtasks (db_tasks w) (task_id parent))))
           parentTasks)"

section \<open>Predicates and example inputs\<close>

text \<open>The rows of the plan with id \<open>i\<close>: the task with that id and the tasks that name it as parent.\<close>

definition in_plan :: "string \<Rightarrow> task_row \<Rightarrow> bool" where
  "in_plan i r = (task_id r = i \<or> parent_task_id r = Some i)"

text \<open>The rows and the objects that the loop of \<^verbatim>\<open>POST /api/plans\<close> makes of the drafts \<open>sts\<close>, counting from \<open>i\<close>.\<close>

definition created_rows ::
  "string \<Rightarrow> (nat \<Rightarrow> string) \<Rightarrow> string \<Rightarrow> string \<Rightarrow> string \<Rightarrow> nat \<Rightarrow> CreateTaskRequest list \<Rightarrow> task_row list" where
  "created_rows now uuid parentId workspaceId agent i sts =
     map (\<lambda>(j, st). subtask_row now (uuid (Suc j)) parentId workspaceId agent j st) (enumerate i sts)"

definition created_objs ::
  "string \<Rightarrow> (nat \<Rightarrow> string) \<Rightarrow> string \<Rightarrow> string \<Rightarrow> string \<Rightarrow> nat \<Rightarrow> CreateTaskRequest list \<Rightarrow> task_obj list" where
  "created_objs now uuid parentId workspaceId agent i sts =
     map (\<lambda>(j, st). subtask_obj now (uuid (Suc j)) parentId workspaceId agent j st) (enumerate i sts)"

text \<open>
  The ids \<open>uuid 0\<close>, ..., \<open>uuid n\<close> that a plan with \<open>n\<close> subtasks takes are fresh:
  distinct and not yet in the table.
\<close>

definition fresh_ids :: "(nat \<Rightarrow> string) \<Rightarrow> nat \<Rightarrow> task_row list \<Rightarrow> bool" where
  "fresh_ids uuid n rows =
     (distinct (map uuid [0..<Suc n]) \<and> list_all (\<lambda>j. uuid j \<notin> set (map task_id rows)) [0..<Suc n])"

text \<open>
  The server's map is well formed: one entry per key, each client under its own id (the
  connection handler stores every client under \<^verbatim>\<open>client.id\<close>).
\<close>

definition wf_server :: "MCWebSocketServer \<Rightarrow> bool" where
  "wf_server srv =
     (distinct (map fst (clients srv)) \<and> list_all (\<lambda>(k, c). client_id c = k) (clients srv))"

text \<open>The test of \<^verbatim>\<open>broadcastToWorkspace\<close> on a client's workspace filter.\<close>

definition subscribed_to :: "string \<Rightarrow> Client \<Rightarrow> bool" where
  "subscribed_to w c = (w \<in> set (subscribedWorkspaces c) \<or> ''*'' \<in> set (subscribedWorkspaces c))"

text \<open>The ids of an optional array of an inbound payload.\<close>

definition ids_of :: "string list option \<Rightarrow> string set" where
  "ids_of x = (case x of None \<Rightarrow> {} | Some xs \<Rightarrow> set xs)"

text \<open>
  The invariant of the plan state machine on a table: every row that names a parent in
  the table has the parent's approval status and status.
\<close>

definition tracks_parent :: "task_row list \<Rightarrow> task_row \<Rightarrow> bool" where
  "tracks_parent rows c =
     (case parent_task_id c of
        None \<Rightarrow> True
      | Some pid \<Rightarrow>
          (case select_task rows pid of
             None \<Rightarrow> True
           | Some p \<Rightarrow> approval_status c = approval_status p \<and> status c = status p))"

definition children_track_parent :: "task_row list \<Rightarrow> bool" where
  "children_track_parent rows = list_all (tracks_parent rows) rows"

text \<open>
  What a \<^verbatim>\<open>tags\<close> field is once the value is serialised for a client: the rows of the
  table carry a string (or null), the objects with parsed tags an array.
\<close>

datatype js_value = JsNull | JsString json_text | JsArray "string list"

definition row_tags_value :: "json_text option \<Rightarrow> js_value" where
  "row_tags_value t = (case t of None \<Rightarrow> JsNull | Some j \<Rightarrow> JsString j)"

text \<open>The \<^verbatim>\<open>subtasks\<close> of a \<^verbatim>\<open>plan_update\<close> frame.\<close>

definition frame_subtasks :: "WSMessage \<Rightarrow> task_row list" where
  "frame_subtasks m =
     (case ws_payload m of PlanUpdatePayload u \<Rightarrow> wsu_subtasks u | _ \<Rightarrow> [])"

text \<open>
  The id names no child: no task has it, or the task that has it names no parent.
\<close>

definition targets_plan :: "task_row list \<Rightarrow> string \<Rightarrow> bool" where
  "targets_plan rows i =
     (case select_task rows i of None \<Rightarrow> True | Some p \<Rightarrow> parent_task_id p = None)"

text \<open>
  The states that \<^verbatim>\<open>createPlan\<close>, \<^verbatim>\<open>approve\<close> and \<^verbatim>\<open>reject\<close> reach from an empty table when
  \<^verbatim>\<open>approve\<close> and \<^verbatim>\<open>reject\<close> are called with ids that name no child.
\<close>

inductive reachable :: "world \<Rightarrow> bool" where
  start: "db_tasks w = [] \<Longrightarrow> reachable w"
| createPlan: "reachable w \<Longrightarrow> reachable (snd (POST_plans now uuid body w))"
| approve: "reachable w \<Longrightarrow> targets_plan (db_tasks w) i \<Longrightarrow>
     reachable (snd (POST_approve now now_ws a i ab w))"
| reject: "reachable w \<Longrightarrow> targets_plan (db_tasks w) i \<Longrightarrow>
     reachable (snd (POST_reject now now_ws a i rb reason w))"

text \<open>
  The invariant these states keep: ids are distinct, and every child has its parent in the
  table, a task without parent that has the child's approval status and status.
\<close>

definition plan_inv :: "task_row list \<Rightarrow> bool" where
  "plan_inv rows =
     (distinct (map task_id rows)
      \<and> (\<forall>c \<in> set rows. \<forall>pid. parent_task_id c = Some pid \<longrightarrow>
            (\<exists>p \<in> set rows. task_id p = pid \<and> parent_task_id p = None
               \<and> approval_status c = approval_status p \<and> status c = status p)))"

text \<open>The parent row of a plan under creation.\<close>

definition pending_parent :: "string \<Rightarrow> task_row \<Rightarrow> bool" where
  "pending_parent pid p =
     (task_id p = pid \<and> parent_task_id p = None \<and> approval_status p = Some Pending
      \<and> status p = Pending_approval)"

text \<open>The events the socket server handles, and the states they reach from a new server.\<close>

datatype server_event = Connection string | Message string InboundMessage | Close string

fun server_step :: "server_event \<Rightarrow> MCWebSocketServer \<Rightarrow> MCWebSocketServer" where
  "server_step (Connection now) srv = on_connection now srv"
| "server_step (Message clientId msg) srv = handleMessage clientId msg srv"
| "server_step (Close clientId) srv = on_close clientId srv"

text \<open>
  The scenario of the specification: the plan \<^verbatim>\<open>Ship v2\<close> with the subtasks
  \<^verbatim>\<open>Write tests\<close> and \<^verbatim>\<open>Update docs\<close>, submitted by the agent \<^verbatim>\<open>dev\<close> to a server with
  one connected socket client.
\<close>

definition draft :: "string \<Rightarrow> string option \<Rightarrow> CreateTaskRequest" where
  "draft t ws =
     \<lparr>req_title = t, req_description = None, req_priority = None, req_workspace_id = ws,
      req_business_id = None, req_tags = None, req_color = None\<rparr>"

definition example_uuid :: "nat \<Rightarrow> string" where
  "example_uuid k = ''id'' @ string_of_nat k"

definition example_body :: "string option \<Rightarrow> CreateTaskPlanRequest" where
  "example_body ws =
     \<lparr>parent_task = Some (draft ''Ship v2'' ws),
      req_subtasks = Some [draft ''Write tests'' None, draft ''Update docs'' None],
      req_agent_id = ''dev'', session_key = None\<rparr>"

definition empty_world :: world where
  "empty_world =
     \<lparr>db_tasks = [], db_task_activities = [], sse_events = [],
      wsServer = on_connection ''T0'' new_server\<rparr>"

definition example_world :: world where
  "example_world = snd (POST_plans ''T1'' example_uuid (example_body None) empty_world)"

definition example_approved :: "(error + plan_obj) \<times> world" where
  "example_approved = POST_approve ''T2'' ''T3'' ''act'' ''id0'' None example_world"

definition example_rejected :: "(error + plan_obj) \<times> world" where
  "example_rejected =
     POST_reject ''T2'' ''T3'' ''act'' ''id0'' (Some ''alice'') (Some ''scope too broad'')
       example_world"

definition example_rejected_unnamed :: "(error + plan_obj) \<times> world" where
  "example_rejected_unnamed =
     POST_reject ''T2'' ''T3'' ''act'' ''id0'' None (Some ''scope too broad'') example_world"

text \<open>The plan of the scenario with tags of the caller on the parent and the first child.\<close>

definition example_body_tagged :: CreateTaskPlanRequest where
  "example_body_tagged =
     \<lparr>parent_task = Some ((draft ''Ship v2'' None)\<lparr>req_tags := Some [''release'']\<rparr>),
      req_subtasks =
        Some [(draft ''Write tests'' None)\<lparr>req_tags := Some [''qa'', ''ci'']\<rparr>,
              draft ''Update docs'' None],
      req_agent_id = ''dev'', session_key = None\<rparr>"

definition example_created_tagged :: "(error + plan_obj) \<times> world" where
  "example_created_tagged = POST_plans ''T1'' example_uuid example_body_tagged empty_world"

text \<open>
  A second scenario: two socket clients, the second subscribed to workspace \<^verbatim>\<open>ws2\<close>
  only, and the same plan submitted to workspace \<^verbatim>\<open>ws2\<close>, then approved.
\<close>

definition two_clients :: MCWebSocketServer where
  "two_clients =
     handleMessage ''client_2''
       \<lparr>in_type = Unsubscribe, in_payload = \<lparr>workspaces = Some [''default''], tasks = None\<rparr>\<rparr>
       (handleMessage ''client_2''
          \<lparr>in_type = Subscribe, in_payload = \<lparr>workspaces = Some [''ws2''], tasks = None\<rparr>\<rparr>
          (on_connection ''T0'' (on_connection ''T0'' new_server)))"

definition example_world_ws2 :: world where
  "example_world_ws2 =
     snd (POST_plans ''T1'' example_uuid (example_body (Some ''ws2''))
            (empty_world\<lparr>wsServer := two_clients\<rparr>))"

definition example_approved_ws2 :: "(error + plan_obj) \<times> world" where
  "example_approved_ws2 = POST_approve ''T2'' ''T3'' ''act'' ''id0'' None example_world_ws2"

text \<open>The first scenario with \<^verbatim>\<open>approve\<close> called on the id of the first child.\<close>

definition example_child_approved :: "(error + plan_obj) \<times> world" where
  "example_child_approved = POST_approve ''T2'' ''T3'' ''act'' ''id1'' None example_world"

text \<open>A frame to broadcast, and a client's messages: subscribe to \<^verbatim>\<open>ws2\<close>, leave \<^verbatim>\<open>default\<close>.\<close>

definition example_frame :: WSMessage where
  "example_frame =
     \<lparr>ws_type = Plan_update,
      ws_payload = PlanUpdatePayload
        \<lparr>wsu_parent_task_id = ''t2'', wsu_subtasks = [], wsu_status = Updated\<rparr>,
      timestamp = Some ''T9''\<rparr>"

definition example_messages :: "InboundMessage list" where
  "example_messages =
     [\<lparr>in_type = Subscribe, in_payload = \<lparr>workspaces = Some [''ws2''], tasks = None\<rparr>\<rparr>,
      \<lparr>in_type = Unsubscribe, in_payload = \<lparr>workspaces = Some [''default''], tasks = None\<rparr>\<rparr>]"

section \<open>Lemmas on the store\<close>

lemma select_task_map:
  assumes "\<And>r. task_id (f r) = task_id r"
  shows "select_task (map f rows) i = map_option f (select_task rows i)"
  unfolding select_task_def using assms by (induction rows) auto

lemma task_id_set_decision [simp]: "task_id (set_decision a st now who r) = task_id r"
  by (simp add: set_decision_def)

lemma parent_task_id_set_decision [simp]:
  "parent_task_id (set_decision a st now who r) = parent_task_id r"
  by (simp add: set_decision_def)

lemma approval_status_set_decision [simp]:
  "approval_status (set_decision a st now who r) = Some a"
  by (simp add: set_decision_def)

lemma set_decision_idem [simp]:
  "set_decision a st now who (set_decision a st now who r) = set_decision a st now who r"
  by (simp add: set_decision_def)

text \<open>The two statements together rewrite exactly the rows of the plan.\<close>

lemma run_decision_statements:
  "run_statements (decision_statements a st now who i) rows =
     map (\<lambda>r. if in_plan i r then set_decision a st now who r else r) rows"
  by (auto simp: run_statements_def decision_statements_def update_parent_def
        update_subtasks_def in_plan_def)

lemma select_task_after_decision:
  "select_task (run_statements (decision_statements a st now who i) rows) i =
     map_option (set_decision a st now who) (select_task rows i)"
proof -
  let ?f = "\<lambda>r. if in_plan i r then set_decision a st now who r else r"
  have "select_task (map ?f rows) i = map_option ?f (select_task rows i)"
    by (rule select_task_map) simp
  moreover have "map_option ?f (select_task rows i)
        = map_option (set_decision a st now who) (select_task rows i)"
    by (cases "select_task rows i")
       (auto simp: select_task_def in_plan_def dest: find_Some_iff[THEN iffD1])
  ultimately show ?thesis by (simp add: run_decision_statements)
qed

lemma approve_success_state:
  assumes "select_task (db_tasks w) i = Some p" "approval_status p = Some Pending"
  shows "\<exists>r w1. POST_approve now now_ws a i ab w = (Inr r, w1)
     \<and> db_tasks w1 =
         run_statements (decision_statements Approved Inbox now (or_default ab ''human'') i)
           (db_tasks w)"
  using assms
  by (simp add: POST_approve_def Let_def select_task_after_decision broadcastEvent_def)

lemma insort_key_map_pres:
  assumes "\<And>r. k (f r) = k r"
  shows "insort_key k (f x) (map f xs) = map f (insort_key k x xs)"
  using assms by (induction xs) auto

lemma sort_key_map_pres:
  assumes "\<And>r. k (f r) = k r"
  shows "sort_key k (map f xs) = map f (sort_key k xs)"
  using assms by (induction xs) (auto simp: insort_key_map_pres)

lemma sort_order_set_decision [simp]: "sort_order (set_decision a st now who r) = sort_order r"
  by (simp add: set_decision_def)

lemma select_subtasks_after_decision:
  "select_subtasks (run_statements (decision_statements a st now who i) rows) i =
     map (set_decision a st now who) (select_subtasks rows i)"
proof -
  let ?f = "\<lambda>r. if in_plan i r then set_decision a st now who r else r"
  have pres: "\<And>r. parent_task_id (?f r) = parent_task_id r" by simp
  have so: "\<And>r. sort_order (?f r) = sort_order r" by simp
  have "filter (\<lambda>r. parent_task_id r = Some i) (map ?f rows)
        = map ?f (filter (\<lambda>r. parent_task_id r = Some i) rows)"
    by (induction rows) auto
  also have "\<dots> = map (set_decision a st now who) (filter (\<lambda>r. parent_task_id r = Some i) rows)"
    by (induction rows) (auto simp: in_plan_def)
  finally have "filter (\<lambda>r. parent_task_id r = Some i) (map ?f rows)
     = map (set_decision a st now who) (filter (\<lambda>r. parent_task_id r = Some i) rows)" .
  then show ?thesis
    by (simp add: select_subtasks_def run_decision_statements sort_key_map_pres)
qed

lemma reject_Inr:
  assumes "POST_reject now now_ws a i rb reason w = (Inr r, w1)"
  shows "\<exists>p. select_task (db_tasks w) i = Some p \<and> approval_status p = Some Pending
     \<and> db_tasks w1 =
         run_statements (decision_statements Rejected Blocked now (or_default rb ''human'') i)
           (db_tasks w)
     \<and> r = with_subtasks (with_parsed_tags (set_decision Rejected Blocked now (or_default rb ''human'') p))
            (map with_parsed_tags (select_subtasks (db_tasks w1) i))"
  using assms
  by (auto simp: POST_reject_def Let_def select_task_after_decision broadcastEvent_def
      split: option.splits if_splits)

lemma approve_Inr:
  assumes "POST_approve now now_ws a i ab w = (Inr r, w1)"
  shows "\<exists>p. select_task (db_tasks w) i = Some p \<and> approval_status p = Some Pending
     \<and> db_tasks w1 =
         run_statements (decision_statements Approved Inbox now (or_default ab ''human'') i)
           (db_tasks w)
     \<and> r = with_subtasks (with_parsed_tags (set_decision Approved Inbox now (or_default ab ''human'') p))
            (map with_parsed_tags (select_subtasks (db_tasks w1) i))"
  using assms
  by (auto simp: POST_approve_def Let_def select_task_after_decision broadcastEvent_def
      split: option.splits if_splits)

lemma filter_id_distinct:
  assumes "distinct (map task_id rows)" "select_task rows i = Some p"
  shows "filter (\<lambda>t. task_id t = i) rows = [p]"
  using assms unfolding select_task_def
proof (induction rows)
  case Nil
  then show ?case by simp
next
  case (Cons x xs)
  show ?case
  proof (cases "task_id x = i")
    case True
    with Cons.prems have "x = p" by simp
    moreover from True Cons.prems have "filter (\<lambda>t. task_id t = i) xs = []"
      by (auto simp: filter_empty_conv image_iff)
    ultimately show ?thesis using True by simp
  next
    case False
    with Cons show ?thesis by simp
  qed
qed

lemma length_filter_disj:
  assumes "\<forall>x \<in> set xs. \<not> (P x \<and> Q x)"
  shows "length (filter (\<lambda>x. P x \<or> Q x) xs) = length (filter P xs) + length (filter Q xs)"
  using assms by (induction xs) auto

lemma status_set_decision [simp]: "status (set_decision a st now who r) = st"
  by (simp add: set_decision_def)

lemma in_plan_set_decision [simp]: "in_plan i (set_decision a st now who r) = in_plan i r"
  by (simp add: in_plan_def)

lemma filter_in_plan_after_decision:
  "filter (in_plan i) (map (\<lambda>r. if in_plan i r then set_decision a st now who r else r) rows)
   = map (set_decision a st now who) (filter (in_plan i) rows)"
  by (induction rows) auto

lemma created_rows_Cons:
  "created_rows now uuid pid ws ag i (st # rest) =
     subtask_row now (uuid (Suc i)) pid ws ag i st # created_rows now uuid pid ws ag (Suc i) rest"
  by (simp add: created_rows_def)

lemma created_objs_Cons:
  "created_objs now uuid pid ws ag i (st # rest) =
     subtask_obj now (uuid (Suc i)) pid ws ag i st # created_objs now uuid pid ws ag (Suc i) rest"
  by (simp add: created_objs_def)

lemma create_subtasks_Inr:
  "create_subtasks now uuid pid ws ag i sts rows acc = Inr (rows2, objs) \<Longrightarrow>
     rows2 = rows @ created_rows now uuid pid ws ag i sts
     \<and> objs = acc @ created_objs now uuid pid ws ag i sts"
proof (induction sts arbitrary: i rows acc)
  case Nil
  then show ?case by (simp add: created_rows_def created_objs_def)
next
  case (Cons st rest)
  from Cons.prems obtain rows1 where
    ins: "insert_task (subtask_row now (uuid (Suc i)) pid ws ag i st) rows = Some rows1"
    and rec: "create_subtasks now uuid pid ws ag (Suc i) rest rows1
                (acc @ [subtask_obj now (uuid (Suc i)) pid ws ag i st]) = Inr (rows2, objs)"
    by (auto simp: Let_def split: option.splits)
  from ins have rows1: "rows1 = rows @ [subtask_row now (uuid (Suc i)) pid ws ag i st]"
    by (auto simp: insert_task_def split: if_splits)
  from Cons.IH[OF rec] show ?case
    by (simp add: rows1 created_rows_Cons created_objs_Cons)
qed

lemma task_id_subtask_row [simp]: "task_id (subtask_row now sid pid ws ag i st) = sid"
  by (simp add: subtask_row_def)

lemma create_subtasks_fresh:
  assumes "inj_on uuid {0..<Suc (i + length sts)}"
    and "\<forall>j \<in> {Suc i..<Suc (i + length sts)}. uuid j \<notin> set (map task_id rows)"
  shows "\<exists>rows2 objs. create_subtasks now uuid pid ws ag i sts rows acc = Inr (rows2, objs)"
  using assms
proof (induction sts arbitrary: i rows acc)
  case Nil
  then show ?case by simp
next
  case (Cons st rest)
  let ?r = "subtask_row now (uuid (Suc i)) pid ws ag i st"
  from Cons.prems(2) have "uuid (Suc i) \<notin> set (map task_id rows)" by simp
  then have ins: "insert_task ?r rows = Some (rows @ [?r])"
    by (simp add: insert_task_def)
  from Cons.prems(1) have inj: "inj_on uuid {0..<Suc (Suc i + length rest)}" by simp
  have f: "\<forall>j \<in> {Suc (Suc i)..<Suc (Suc i + length rest)}.
             uuid j \<notin> set (map task_id (rows @ [?r]))"
  proof
    fix j assume j: "j \<in> {Suc (Suc i)..<Suc (Suc i + length rest)}"
    then have "j \<in> {Suc i..<Suc (i + length (st # rest))}" by simp
    with Cons.prems(2) have 1: "uuid j \<notin> set (map task_id rows)" by blast
    from j have "j \<in> {0..<Suc (Suc i + length rest)}" "Suc i \<in> {0..<Suc (Suc i + length rest)}"
      "j \<noteq> Suc i" by simp_all
    with inj have "uuid j \<noteq> uuid (Suc i)" by (auto dest: inj_onD)
    with 1 show "uuid j \<notin> set (map task_id (rows @ [?r]))" by simp
  qed
  from Cons.IH[OF inj f] show ?case by (simp add: ins Let_def)
qed

lemma created_rows_nth:
  "j < length sts \<Longrightarrow>
     created_rows now uuid pid ws ag i sts ! j
       = subtask_row now (uuid (Suc (i + j))) pid ws ag (i + j) (sts ! j)"
  by (simp add: created_rows_def nth_enumerate_eq)

lemma created_objs_nth:
  "j < length sts \<Longrightarrow>
     created_objs now uuid pid ws ag i sts ! j
       = subtask_obj now (uuid (Suc (i + j))) pid ws ag (i + j) (sts ! j)"
  by (simp add: created_objs_def nth_enumerate_eq)

lemma length_created_rows [simp]: "length (created_rows now uuid pid ws ag i sts) = length sts"
  by (simp add: created_rows_def)

lemma length_created_objs [simp]: "length (created_objs now uuid pid ws ag i sts) = length sts"
  by (simp add: created_objs_def)

lemma POST_plans_valid:
  assumes "parent_task body = Some pt" "req_title pt \<noteq> []" "req_subtasks body = Some sts"
    "sts \<noteq> []"
  shows "POST_plans now uuid body w =
     (case insert_task
             (parent_row now (uuid 0) (or_default (req_workspace_id pt) ''default'')
                (req_agent_id body) (session_key body) pt) (db_tasks w) of
        None \<Rightarrow> (Inl StoreError, w)
      | Some rows1 \<Rightarrow>
          (case create_subtasks now uuid (uuid 0) (or_default (req_workspace_id pt) ''default'')
                  (req_agent_id body) 0 sts rows1 [] of
             Inl rows2 \<Rightarrow> (Inl StoreError, w\<lparr>db_tasks := rows2\<rparr>)
           | Inr (rows2, objs) \<Rightarrow>
               (Inr (created_parent now (uuid 0) (or_default (req_workspace_id pt) ''default'')
                       (req_agent_id body) (session_key body) pt objs),
                broadcastEvent
                  \<lparr>sse_type = Plan_created,
                   sse_payload = created_parent now (uuid 0)
                       (or_default (req_workspace_id pt) ''default'')
                       (req_agent_id body) (session_key body) pt objs\<rparr>
                  (w\<lparr>db_tasks := rows2,
                     db_task_activities := db_task_activities w @
                       [\<lparr>activity_id = uuid (Suc (length sts)), activity_task_id = uuid 0,
                         activity_agent_id = Some (req_agent_id body),
                         activity_type = ''spawned'',
                         message = ''Agent created task plan with ''
                           @ string_of_nat (length sts) @ '' subtasks'',
                         metadata = None, activity_created_at = now\<rparr>]\<rparr>))))"
  using assms unfolding POST_plans_def Let_def by simp

lemma POST_plans_Inr:
  assumes "parent_task body = Some pt" "req_title pt \<noteq> []" "req_subtasks body = Some sts"
    "sts \<noteq> []"
    and ok: "POST_plans now uuid body w = (Inr plan, w1)"
  shows "db_tasks w1 = db_tasks w
           @ parent_row now (uuid 0) (or_default (req_workspace_id pt) ''default'')
               (req_agent_id body) (session_key body) pt
           # created_rows now uuid (uuid 0) (or_default (req_workspace_id pt) ''default'')
               (req_agent_id body) 0 sts
     \<and> plan = created_parent now (uuid 0) (or_default (req_workspace_id pt) ''default'')
               (req_agent_id body) (session_key body) pt
               (created_objs now uuid (uuid 0) (or_default (req_workspace_id pt) ''default'')
                  (req_agent_id body) 0 sts)
     \<and> uuid 0 \<notin> set (map task_id (db_tasks w))"
proof -
  let ?ws = "or_default (req_workspace_id pt) ''default''"
  let ?pr = "parent_row now (uuid 0) ?ws (req_agent_id body) (session_key body) pt"
  note v = POST_plans_valid[OF assms(1-4), of now uuid w]
  show ?thesis
  proof (cases "insert_task ?pr (db_tasks w)")
    case None
    have "fst (POST_plans now uuid body w) = Inl StoreError" by (simp add: v None)
    with ok show ?thesis by simp
  next
    case (Some rows1)
    then have r1: "rows1 = db_tasks w @ [?pr]"
      and nin: "uuid 0 \<notin> set (map task_id (db_tasks w))"
      by (auto simp: insert_task_def parent_row_def split: if_splits)
    show ?thesis
    proof (cases "create_subtasks now uuid (uuid 0) ?ws (req_agent_id body) 0 sts rows1 []")
      case (Inl rows2)
      have "fst (POST_plans now uuid body w) = Inl StoreError" by (simp add: v Some Inl)
      with ok show ?thesis by simp
    next
      case (Inr res)
      obtain rows2 objs where res: "res = (rows2, objs)" by (cases res)
      from create_subtasks_Inr[OF Inr[unfolded res]]
      have c: "rows2 = rows1 @ created_rows now uuid (uuid 0) ?ws (req_agent_id body) 0 sts"
        "objs = created_objs now uuid (uuid 0) ?ws (req_agent_id body) 0 sts"
        by simp_all
      have e: "POST_plans now uuid body w =
          (Inr (created_parent now (uuid 0) ?ws (req_agent_id body) (session_key body) pt objs),
           broadcastEvent
             \<lparr>sse_type = Plan_created,
              sse_payload = created_parent now (uuid 0) ?ws (req_agent_id body)
                  (session_key body) pt objs\<rparr>
             (w\<lparr>db_tasks := rows2,
                db_task_activities := db_task_activities w @
                  [\<lparr>activity_id = uuid (Suc (length sts)), activity_task_id = uuid 0,
                    activity_agent_id = Some (req_agent_id body),
                    activity_type = ''spawned'',
                    message = ''Agent created task plan with ''
                      @ string_of_nat (length sts) @ '' subtasks'',
                    metadata = None, activity_created_at = now\<rparr>]\<rparr>))"
        by (simp add: v Some Inr res)
      from ok have "fst (POST_plans now uuid body w) = Inr plan"
        "db_tasks (snd (POST_plans now uuid body w)) = db_tasks w1" by simp_all
      then have "plan = created_parent now (uuid 0) ?ws (req_agent_id body) (session_key body) pt objs"
        and "db_tasks w1 = rows2"
        unfolding e by (simp_all add: broadcastEvent_def)
      with c r1 nin show ?thesis by simp
    qed
  qed
qed

lemma POST_plans_success:
  assumes "parent_task body = Some pt" "req_title pt \<noteq> []" "req_subtasks body = Some sts"
    "sts \<noteq> []" "fresh_ids uuid (length sts) (db_tasks w)"
  shows "\<exists>plan w1. POST_plans now uuid body w = (Inr plan, w1)"
proof -
  let ?ws = "or_default (req_workspace_id pt) ''default''"
  let ?pr = "parent_row now (uuid 0) ?ws (req_agent_id body) (session_key body) pt"
  from assms(5) have inj: "inj_on uuid {0..<Suc (length sts)}"
    and fr: "\<forall>j \<in> {0..<Suc (length sts)}. uuid j \<notin> set (map task_id (db_tasks w))"
    unfolding fresh_ids_def by (simp_all add: distinct_map list_all_iff del: upt_Suc)
  from fr have f0: "uuid 0 \<notin> set (map task_id (db_tasks w))" by simp
  then have ins: "insert_task ?pr (db_tasks w) = Some (db_tasks w @ [?pr])"
    by (simp add: insert_task_def parent_row_def)
  have f: "\<forall>j \<in> {Suc 0..<Suc (0 + length sts)}.
            uuid j \<notin> set (map task_id (db_tasks w @ [?pr]))"
  proof
    fix j assume j: "j \<in> {Suc 0..<Suc (0 + length sts)}"
    with fr have 1: "uuid j \<notin> set (map task_id (db_tasks w))" by simp
    from j have "j \<in> {0..<Suc (length sts)}" "0 \<in> {0..<Suc (length sts)}" "j \<noteq> 0"
      by simp_all
    with inj have "uuid j \<noteq> uuid 0" by (auto dest: inj_onD)
    with 1 show "uuid j \<notin> set (map task_id (db_tasks w @ [?pr]))"
      by (simp add: parent_row_def)
  qed
  from inj have inj': "inj_on uuid {0..<Suc (0 + length sts)}" by simp
  from create_subtasks_fresh[OF inj' f, of now "uuid 0" ?ws "req_agent_id body" "[]"]
  obtain rows2 objs where
    "create_subtasks now uuid (uuid 0) ?ws (req_agent_id body) 0 sts (db_tasks w @ [?pr]) []
       = Inr (rows2, objs)" by blast
  then have "fst (POST_plans now uuid body w)
      = Inr (created_parent now (uuid 0) ?ws (req_agent_id body) (session_key body) pt objs)"
    by (simp add: POST_plans_valid[OF assms(1-4), of now uuid w] ins)
  then show ?thesis by (metis prod.collapse)
qed

text \<open>The handlers stopped after one, two and all of their statements.\<close>

lemma POST_approve_upto_complete:
  assumes "3 \<le> n"
  shows "POST_approve_upto n now now_ws a i ab w =
     (Some (fst (POST_approve now now_ws a i ab w)), snd (POST_approve now now_ws a i ab w))"
proof -
  from assms have n: "n \<noteq> 0" "n \<noteq> Suc 0" "n \<noteq> 2" by simp_all
  show ?thesis
    by (simp add: POST_approve_upto_def POST_approve_def Let_def n run_statements_def
          decision_statements_def split: option.splits)
qed

lemma POST_reject_upto_complete:
  assumes "3 \<le> n"
  shows "POST_reject_upto n now now_ws a i rb reason w =
     (Some (fst (POST_reject now now_ws a i rb reason w)),
      snd (POST_reject now now_ws a i rb reason w))"
proof -
  from assms have n: "n \<noteq> 0" "n \<noteq> Suc 0" "n \<noteq> 2" by simp_all
  show ?thesis
    by (simp add: POST_reject_upto_def POST_reject_def Let_def n run_statements_def
          decision_statements_def split: option.splits)
qed

lemma update_parent_row:
  assumes "select_task rows i = Some p"
  shows "select_task (update_parent d st now who i rows) i = Some (set_decision d st now who p)"
proof -
  let ?f = "\<lambda>r. if task_id r = i then set_decision d st now who r else r"
  have "select_task (map ?f rows) i = map_option ?f (select_task rows i)"
    by (rule select_task_map) simp
  moreover from assms have "task_id p = i"
    by (auto simp: select_task_def dest: find_Some_iff[THEN iffD1])
  ultimately show ?thesis using assms by (simp add: update_parent_def)
qed

lemma approve_stopped:
  assumes p: "select_task (db_tasks w) i = Some p" "approval_status p = Some Pending"
  shows "POST_approve_upto (Suc 0) now now_ws a i ab w =
           (None, w\<lparr>db_tasks :=
              update_parent Approved Inbox now (or_default ab ''human'') i (db_tasks w)\<rparr>)"
    and "POST_approve_upto 2 now now_ws a i ab w =
           (None, w\<lparr>db_tasks :=
              update_subtasks Approved Inbox now (or_default ab ''human'') i
                (update_parent Approved Inbox now (or_default ab ''human'') i (db_tasks w))\<rparr>)"
  using p by (simp_all add: POST_approve_upto_def Let_def)

lemma reject_stopped:
  assumes p: "select_task (db_tasks w) i = Some p" "approval_status p = Some Pending"
  shows "POST_reject_upto (Suc 0) now now_ws a i rb reason w =
           (None, w\<lparr>db_tasks :=
              update_parent Rejected Blocked now (or_default rb ''human'') i (db_tasks w)\<rparr>)"
    and "POST_reject_upto 2 now now_ws a i rb reason w =
           (None, w\<lparr>db_tasks :=
              update_subtasks Rejected Blocked now (or_default rb ''human'') i
                (update_parent Rejected Blocked now (or_default rb ''human'') i (db_tasks w))\<rparr>)"
  using p by (simp_all add: POST_reject_upto_def Let_def)

lemma reject_success_state:
  assumes "select_task (db_tasks w) i = Some p" "approval_status p = Some Pending"
  shows "\<exists>r w1. POST_reject now now_ws a i rb reason w = (Inr r, w1)
     \<and> db_tasks w1 =
         run_statements (decision_statements Rejected Blocked now (or_default rb ''human'') i)
           (db_tasks w)"
  using assms
  by (simp add: POST_reject_def Let_def select_task_after_decision broadcastEvent_def)

lemma approve_commits:
  assumes p: "select_task (db_tasks w) i = Some p" "approval_status p = Some Pending"
  shows "(\<forall>n. 3 \<le> n \<longrightarrow>
        POST_approve_upto n now now_ws a i ab w = (Some (fst (POST_approve now now_ws a i ab w)), snd (POST_approve now now_ws a i ab w)))
   \<and> \<not> isl (fst (POST_approve now now_ws a i ab w))
   \<and> fst (POST_approve_upto 1 now now_ws a i ab w) = None
   \<and> (\<exists>q. select_task (db_tasks (snd (POST_approve_upto 1 now now_ws a i ab w))) i = Some q
          \<and> approval_status q = Some Approved \<and> status q = Inbox)
   \<and> length (db_tasks (snd (POST_approve_upto 1 now now_ws a i ab w))) = length (db_tasks w)
   \<and> (\<forall>k < length (db_tasks w). task_id (db_tasks w ! k) \<noteq> i \<longrightarrow>
          db_tasks (snd (POST_approve_upto 1 now now_ws a i ab w)) ! k = db_tasks w ! k)
   \<and> fst (POST_approve_upto 2 now now_ws a i ab w) = None
   \<and> db_tasks (snd (POST_approve_upto 2 now now_ws a i ab w)) = db_tasks (snd (POST_approve now now_ws a i ab w))
   \<and> db_task_activities (snd (POST_approve_upto 2 now now_ws a i ab w)) = db_task_activities w
   \<and> (\<forall>t \<in> set (db_tasks (snd (POST_approve now now_ws a i ab w))). in_plan i t \<longrightarrow>
          approval_status t = Some Approved \<and> status t = Inbox)"
proof -
  let ?who = "or_default ab ''human''"
  let ?r1 = "update_parent Approved Inbox now ?who i (db_tasks w)"
  note s = approve_stopped[OF p, of now now_ws a ab]
  from approve_success_state[OF p, of now now_ws a ab]
  obtain r w1 where ok: "POST_approve now now_ws a i ab w = (Inr r, w1)"
    and db: "db_tasks w1 = run_statements (decision_statements Approved Inbox now ?who i) (db_tasks w)"
    by blast
  have c: "\<forall>n. 3 \<le> n \<longrightarrow>
        POST_approve_upto n now now_ws a i ab w
        = (Some (fst (POST_approve now now_ws a i ab w)), snd (POST_approve now now_ws a i ab w))"
    by (simp add: POST_approve_upto_complete)
  have q: "select_task ?r1 i = Some (set_decision Approved Inbox now ?who p)"
    by (rule update_parent_row[OF p(1)])
  have l: "length ?r1 = length (db_tasks w)" by (simp add: update_parent_def)
  have u: "\<forall>k < length (db_tasks w). task_id (db_tasks w ! k) \<noteq> i \<longrightarrow> ?r1 ! k = db_tasks w ! k"
    by (simp add: update_parent_def)
  have e: "run_statements (decision_statements Approved Inbox now ?who i) (db_tasks w)
      = update_subtasks Approved Inbox now ?who i ?r1"
    by (simp add: run_statements_def decision_statements_def)
  have f: "\<forall>t \<in> set (db_tasks w1). in_plan i t \<longrightarrow>
          approval_status t = Some Approved \<and> status t = Inbox"
    by (auto simp: db run_decision_statements)
  show ?thesis
  proof (intro conjI)
    show "\<exists>q. select_task (db_tasks (snd (POST_approve_upto 1 now now_ws a i ab w))) i = Some q
          \<and> approval_status q = Some Approved \<and> status q = Inbox"
      using q by (simp add: s)
  qed (use c ok db e f l u in \<open>simp_all add: s\<close>)
qed

lemma reject_commits:
  assumes p: "select_task (db_tasks w) i = Some p" "approval_status p = Some Pending"
  shows "(\<forall>n. 3 \<le> n \<longrightarrow>
        POST_reject_upto n now now_ws a i rb reason w = (Some (fst (POST_reject now now_ws a i rb reason w)), snd (POST_reject now now_ws a i rb reason w)))
   \<and> \<not> isl (fst (POST_reject now now_ws a i rb reason w))
   \<and> fst (POST_reject_upto 1 now now_ws a i rb reason w) = None
   \<and> (\<exists>q. select_task (db_tasks (snd (POST_reject_upto 1 now now_ws a i rb reason w))) i = Some q
          \<and> approval_status q = Some Rejected \<and> status q = Blocked)
   \<and> length (db_tasks (snd (POST_reject_upto 1 now now_ws a i rb reason w))) = length (db_tasks w)
   \<and> (\<forall>k < length (db_tasks w). task_id (db_tasks w ! k) \<noteq> i \<longrightarrow>
          db_tasks (snd (POST_reject_upto 1 now now_ws a i rb reason w)) ! k = db_tasks w ! k)
   \<and> fst (POST_reject_upto 2 now now_ws a i rb reason w) = None
   \<and> db_tasks (snd (POST_reject_upto 2 now now_ws a i rb reason w)) = db_tasks (snd (POST_reject now now_ws a i rb reason w))
   \<and> db_task_activities (snd (POST_reject_upto 2 now now_ws a i rb reason w)) = db_task_activities w
   \<and> (\<forall>t \<in> set (db_tasks (snd (POST_reject now now_ws a i rb reason w))). in_plan i t \<longrightarrow>
          approval_status t = Some Rejected \<and> status t = Blocked)"
proof -
  let ?who = "or_default rb ''human''"
  let ?r1 = "update_parent Rejected Blocked now ?who i (db_tasks w)"
  note s = reject_stopped[OF p, of now now_ws a rb reason]
  from reject_success_state[OF p, of now now_ws a rb reason]
  obtain r w1 where ok: "POST_reject now now_ws a i rb reason w = (Inr r, w1)"
    and db: "db_tasks w1 = run_statements (decision_statements Rejected Blocked now ?who i) (db_tasks w)"
    by blast
  have c: "\<forall>n. 3 \<le> n \<longrightarrow>
        POST_reject_upto n now now_ws a i rb reason w
        = (Some (fst (POST_reject now now_ws a i rb reason w)), snd (POST_reject now now_ws a i rb reason w))"
    by (simp add: POST_reject_upto_complete)
  have q: "select_task ?r1 i = Some (set_decision Rejected Blocked now ?who p)"
    by (rule update_parent_row[OF p(1)])
  have l: "length ?r1 = length (db_tasks w)" by (simp add: update_parent_def)
  have u: "\<forall>k < length (db_tasks w). task_id (db_tasks w ! k) \<noteq> i \<longrightarrow> ?r1 ! k = db_tasks w ! k"
    by (simp add: update_parent_def)
  have e: "run_statements (decision_statements Rejected Blocked now ?who i) (db_tasks w)
      = update_subtasks Rejected Blocked now ?who i ?r1"
    by (simp add: run_statements_def decision_statements_def)
  have f: "\<forall>t \<in> set (db_tasks w1). in_plan i t \<longrightarrow>
          approval_status t = Some Rejected \<and> status t = Blocked"
    by (auto simp: db run_decision_statements)
  show ?thesis
  proof (intro conjI)
    show "\<exists>q. select_task (db_tasks (snd (POST_reject_upto 1 now now_ws a i rb reason w))) i = Some q
          \<and> approval_status q = Some Rejected \<and> status q = Blocked"
      using q by (simp add: s)
  qed (use c ok db e f l u in \<open>simp_all add: s\<close>)
qed

section \<open>Lemmas on the socket server\<close>

lemma wf_server_lookup:
  "wf_server srv \<Longrightarrow> map_of (clients srv) k = Some c \<Longrightarrow> client_id c = k"
  by (auto simp: wf_server_def list_all_iff dest!: map_of_SomeD)

lemma list_all_update:
  assumes "list_all (\<lambda>(k, c). P k c) al" "P k v"
  shows "list_all (\<lambda>(k, c). P k c) (AList.update k v al)"
  using assms by (induction al) auto

lemma wf_server_update:
  assumes "wf_server srv" "client_id c1 = k"
  shows "wf_server (srv\<lparr>clients := AList.update k c1 (clients srv)\<rparr>)"
  using assms list_all_update[of "\<lambda>k c. client_id c = k" "clients srv" k c1]
  by (simp add: wf_server_def distinct_update)

lemma clients_send [simp]: "clients (send c m srv) = clients srv"
  by (simp add: send_def)

lemma handleMessage_clients:
  assumes "map_of (clients srv) cid = Some c"
  shows "\<exists>c1. clients (handleMessage cid msg srv) = AList.update cid c1 (clients srv)
           \<and> readyState c1 = readyState c \<and> client_id c1 = client_id c"
proof (cases "in_type msg")
  case Subscribe
  with assms show ?thesis
    by (auto simp: handleMessage_def handleSubscribe_def Let_def)
next
  case Unsubscribe
  with assms show ?thesis
    by (auto simp: handleMessage_def handleUnsubscribe_def)
qed (use assms in \<open>auto simp: handleMessage_def update_triv intro!: exI[of _ c]\<close>)

lemma handleMessage_keeps:
  assumes "wf_server srv" "map_of (clients srv) cid = Some c"
  shows "wf_server (handleMessage cid msg srv)
     \<and> (\<exists>c1. map_of (clients (handleMessage cid msg srv)) cid = Some c1
             \<and> readyState c1 = readyState c)"
proof -
  from handleMessage_clients[OF assms(2), of msg] obtain c1 where
    cl: "clients (handleMessage cid msg srv) = AList.update cid c1 (clients srv)"
    and rs: "readyState c1 = readyState c" and ci: "client_id c1 = client_id c" by blast
  from wf_server_lookup[OF assms] ci have "client_id c1 = cid" by simp
  from wf_server_update[OF assms(1) this]
  have "wf_server ((handleMessage cid msg srv)\<lparr>clients := AList.update cid c1 (clients srv)\<rparr>)"
    by (simp add: wf_server_def)
  then have "wf_server (handleMessage cid msg srv)"
    by (simp add: wf_server_def cl)
  moreover have "map_of (clients (handleMessage cid msg srv)) cid = Some c1"
    by (simp add: cl update_conv')
  ultimately show ?thesis using rs by blast
qed

lemma fold_handleMessage_keeps:
  assumes "wf_server srv" "map_of (clients srv) cid = Some c"
  shows "wf_server (fold (handleMessage cid) msgs srv)
     \<and> (\<exists>c1. map_of (clients (fold (handleMessage cid) msgs srv)) cid = Some c1
             \<and> readyState c1 = readyState c)"
  using assms
proof (induction msgs arbitrary: srv c)
  case Nil
  then show ?case by simp
next
  case (Cons m ms)
  from handleMessage_keeps[OF Cons.prems, of m] obtain c1 where
    1: "wf_server (handleMessage cid m srv)"
    and 2: "map_of (clients (handleMessage cid m srv)) cid = Some c1"
    and 3: "readyState c1 = readyState c" by blast
  from Cons.IH[OF 1 2] 3 show ?case by simp
qed

lemma fold_send:
  "fold (\<lambda>(k, client) s. if P client then send client m s else s) cs srv
   = srv\<lparr>sent := sent srv @ map (\<lambda>(k, c). (client_id c, m))
        (filter (\<lambda>(k, c). P c \<and> readyState c = OPEN) cs)\<rparr>"
proof (induction cs arbitrary: srv)
  case Nil
  then show ?case by simp
next
  case (Cons x xs)
  obtain k c where x: "x = (k, c)" by (cases x)
  show ?case
    by (simp add: x Cons.IH send_def)
qed

lemma sent_broadcastToWorkspace:
  "sent (broadcastToWorkspace w m srv) =
     sent srv @ map (\<lambda>(k, c). (client_id c, m))
        (filter (\<lambda>(k, c). subscribed_to w c \<and> readyState c = OPEN) (clients srv))"
  unfolding broadcastToWorkspace_def set_has_def
  by (simp add: fold_send[of "\<lambda>c. w \<in> set (subscribedWorkspaces c) \<or> ''*'' \<in> set (subscribedWorkspaces c)"]
        subscribed_to_def)

lemma frames_of_client:
  assumes "distinct (map fst cs)" "list_all (\<lambda>(k, c). client_id c = k) cs"
    "map_of cs cid = Some c1"
  shows "map snd (filter (\<lambda>p. fst p = cid)
           (map (\<lambda>(k, c). (client_id c, m)) (filter (\<lambda>(k, c). Q c) cs)))
         = (if Q c1 then [m] else [])"
  using assms
proof (induction cs)
  case Nil
  then show ?case by simp
next
  case (Cons x xs)
  obtain k c where x: "x = (k, c)" by (cases x)
  from Cons.prems have ck: "client_id c = k" and d: "distinct (map fst xs)"
    and la: "list_all (\<lambda>(k, c). client_id c = k) xs" and nk: "k \<notin> fst ` set xs"
    by (auto simp: x)
  show ?case
  proof (cases "k = cid")
    case True
    with Cons.prems x have c1: "c = c1" by simp
    have none: "filter (\<lambda>p. fst p = cid)
           (map (\<lambda>(k, c). (client_id c, m)) (filter (\<lambda>(k, c). Q c) xs)) = []"
    proof -
      have "\<forall>p \<in> set xs. client_id (snd p) \<noteq> cid"
      proof
        fix p assume p: "p \<in> set xs"
        with la have "client_id (snd p) = fst p" by (auto simp: list_all_iff)
        moreover from p nk True have "fst p \<noteq> cid" by auto
        ultimately show "client_id (snd p) \<noteq> cid" by simp
      qed
      then show ?thesis by (auto simp: filter_empty_conv)
    qed
    show ?thesis using True ck c1 none by (simp add: x)
  next
    case False
    with Cons.prems x have "map_of xs cid = Some c1" by simp
    note ih = Cons.IH[OF d la this]
    have "map snd (filter (\<lambda>p. fst p = cid)
             (map (\<lambda>(k, c). (client_id c, m)) (filter (\<lambda>(k, c). Q c) (x # xs))))
          = map snd (filter (\<lambda>p. fst p = cid)
             (map (\<lambda>(k, c). (client_id c, m)) (filter (\<lambda>(k, c). Q c) xs)))"
      using False ck by (simp add: x)
    also note ih
    finally show ?thesis .
  qed
qed

lemma received_broadcastToWorkspace:
  assumes "wf_server srv" "map_of (clients srv) cid = Some c1"
  shows "received cid (broadcastToWorkspace w m srv) =
     received cid srv @ (if subscribed_to w c1 \<and> readyState c1 = OPEN then [m] else [])"
proof -
  from assms(1) have d: "distinct (map fst (clients srv))"
    and la: "list_all (\<lambda>(k, c). client_id c = k) (clients srv)"
    by (simp_all add: wf_server_def)
  from frames_of_client[OF d la assms(2), of m "\<lambda>c. subscribed_to w c \<and> readyState c = OPEN"]
  show ?thesis
    by (simp add: received_def sent_broadcastToWorkspace)
qed

lemma client_1_name: "string_of_nat (Suc 0) = ''1''"
  by code_simp

lemma clients_first_connection:
  "clients (on_connection now new_server) =
     [(''client_1'', \<lparr>readyState = OPEN, client_id = ''client_1'',
         subscribedWorkspaces = [''default''], subscribedTasks = []\<rparr>)]"
  by (simp add: on_connection_def new_server_def Let_def client_1_name)

lemma clients_task_subscriber:
  "clients (handleMessage ''client_1''
      \<lparr>in_type = Subscribe, in_payload = \<lparr>workspaces = None, tasks = Some ts\<rparr>\<rparr>
      (on_connection now new_server)) =
     [(''client_1'', \<lparr>readyState = OPEN, client_id = ''client_1'',
         subscribedWorkspaces = [''default''], subscribedTasks = fold set_add ts []\<rparr>)]"
  by (simp add: handleMessage_def handleSubscribe_def clients_first_connection for_each_opt_def Let_def)

lemma task_only_subscriber:
  "received ''client_1'' (broadcastPlanUpdate now2 upd (Some w)
        (handleMessage ''client_1''
           \<lparr>in_type = Subscribe, in_payload = \<lparr>workspaces = None, tasks = Some ts\<rparr>\<rparr>
           (on_connection now new_server)))
     = received ''client_1''
        (handleMessage ''client_1''
           \<lparr>in_type = Subscribe, in_payload = \<lparr>workspaces = None, tasks = Some ts\<rparr>\<rparr>
           (on_connection now new_server))
       @ (if w = ''default''
          then [\<lparr>ws_type = Plan_update, ws_payload = PlanUpdatePayload upd, timestamp = Some now2\<rparr>]
          else [])"
proof -
  let ?srv = "handleMessage ''client_1''
           \<lparr>in_type = Subscribe, in_payload = \<lparr>workspaces = None, tasks = Some ts\<rparr>\<rparr>
           (on_connection now new_server)"
  let ?c = "\<lparr>readyState = OPEN, client_id = ''client_1'',
         subscribedWorkspaces = [''default''], subscribedTasks = fold set_add ts []\<rparr>"
  have wf: "wf_server ?srv" by (simp add: wf_server_def clients_task_subscriber)
  have lk: "map_of (clients ?srv) ''client_1'' = Some ?c" by (simp add: clients_task_subscriber)
  have "subscribed_to w ?c = (w = ''default'')" by (auto simp: subscribed_to_def)
  with received_broadcastToWorkspace[OF wf lk, of w] show ?thesis
    by (simp add: broadcastPlanUpdate_def)
qed

lemma set_fold_set_add: "set (fold set_add ws xs) = set xs \<union> set ws"
  by (induction ws arbitrary: xs) (auto simp: set_add_def)

lemma set_fold_set_delete: "set (fold set_delete ws xs) = set xs - set ws"
  by (induction ws arbitrary: xs) (auto simp: set_delete_def)

lemma handleMessage_filter:
  assumes "map_of (clients srv) cid = Some c"
  shows "\<exists>c1. map_of (clients (handleMessage cid msg srv)) cid = Some c1
     \<and> set (subscribedWorkspaces c1) =
        (if in_type msg = Subscribe
         then set (subscribedWorkspaces c) \<union> ids_of (workspaces (in_payload msg))
         else if in_type msg = Unsubscribe
         then set (subscribedWorkspaces c) - ids_of (workspaces (in_payload msg))
         else set (subscribedWorkspaces c))"
proof (cases "in_type msg")
  case Subscribe
  with assms show ?thesis
    by (auto simp: handleMessage_def handleSubscribe_def Let_def update_conv' ids_of_def
          for_each_opt_def set_fold_set_add split: option.splits)
next
  case Unsubscribe
  with assms show ?thesis
    by (auto simp: handleMessage_def handleUnsubscribe_def update_conv' ids_of_def
          for_each_opt_def set_fold_set_delete split: option.splits)
qed (use assms in \<open>auto simp: handleMessage_def\<close>)

section \<open>Lemmas on reachable states\<close>

lemma select_task_Some_iff:
  assumes "distinct (map task_id rows)"
  shows "select_task rows i = Some p \<longleftrightarrow> p \<in> set rows \<and> task_id p = i"
  using assms unfolding select_task_def
  by (induction rows) (auto simp: image_iff)

lemma plan_inv_tracks:
  assumes "plan_inv rows"
  shows "children_track_parent rows"
  unfolding children_track_parent_def list_all_iff
proof
  fix c assume c: "c \<in> set rows"
  from assms have d: "distinct (map task_id rows)" by (simp add: plan_inv_def)
  show "tracks_parent rows c"
  proof (cases "parent_task_id c")
    case None
    then show ?thesis by (simp add: tracks_parent_def)
  next
    case (Some pid)
    with assms c obtain p where p: "p \<in> set rows" "task_id p = pid"
      "approval_status c = approval_status p" "status c = status p"
      unfolding plan_inv_def by blast
    then have "select_task rows pid = Some p" by (simp add: select_task_Some_iff[OF d])
    with Some p show ?thesis by (simp add: tracks_parent_def)
  qed
qed

lemma plan_inv_decision:
  assumes inv: "plan_inv rows" and tp: "targets_plan rows i"
  shows "plan_inv (run_statements (decision_statements a st now who i) rows)"
proof -
  let ?f = "\<lambda>r. if in_plan i r then set_decision a st now who r else r"
  from inv have d: "distinct (map task_id rows)" by (simp add: plan_inv_def)
  have ids: "map task_id (map ?f rows) = map task_id rows" by (induction rows) auto
  have d': "distinct (map task_id (map ?f rows))" unfolding ids by (rule d)
  have "\<forall>c \<in> set (map ?f rows). \<forall>pid. parent_task_id c = Some pid \<longrightarrow>
            (\<exists>p \<in> set (map ?f rows). task_id p = pid \<and> parent_task_id p = None
               \<and> approval_status c = approval_status p \<and> status c = status p)"
  proof (intro ballI allI impI)
    fix c' pid assume c': "c' \<in> set (map ?f rows)" and par: "parent_task_id c' = Some pid"
    from c' obtain c where c: "c \<in> set rows" "c' = ?f c" by auto
    with par have cpar: "parent_task_id c = Some pid" by (simp split: if_splits)
    with inv c obtain p where p: "p \<in> set rows" "task_id p = pid" "parent_task_id p = None"
      "approval_status c = approval_status p" "status c = status p"
      unfolding plan_inv_def by blast
    have fp: "?f p \<in> set (map ?f rows)" using p(1) by simp
    show "\<exists>p \<in> set (map ?f rows). task_id p = pid \<and> parent_task_id p = None
               \<and> approval_status c' = approval_status p \<and> status c' = status p"
    proof (cases "pid = i")
      case True
      with cpar p have "in_plan i c" "in_plan i p" by (simp_all add: in_plan_def)
      with c p fp show ?thesis
        by (intro bexI[of _ "?f p"]) (simp_all add: set_decision_def)
    next
      case False
      with p have np: "\<not> in_plan i p" by (simp add: in_plan_def)
      have nc: "\<not> in_plan i c"
      proof
        assume "in_plan i c"
        with cpar False have ci: "task_id c = i" by (simp add: in_plan_def)
        with c have "select_task rows i = Some c" by (simp add: select_task_Some_iff[OF d])
        with tp have "parent_task_id c = None" by (simp add: targets_plan_def)
        with cpar show False by simp
      qed
      from np nc c p fp show ?thesis
        by (intro bexI[of _ "?f p"]) simp_all
    qed
  qed
  with d' show ?thesis
    unfolding plan_inv_def run_decision_statements by blast
qed

lemma db_tasks_POST_approve:
  "db_tasks (snd (POST_approve now now_ws a i ab w)) =
     (case select_task (db_tasks w) i of
        None \<Rightarrow> db_tasks w
      | Some p \<Rightarrow>
          if approval_status p \<noteq> Some Pending then db_tasks w
          else run_statements (decision_statements Approved Inbox now (or_default ab ''human'') i)
                 (db_tasks w))"
  by (simp add: POST_approve_def Let_def select_task_after_decision broadcastEvent_def
        split: option.splits)

lemma db_tasks_POST_reject:
  "db_tasks (snd (POST_reject now now_ws a i rb reason w)) =
     (case select_task (db_tasks w) i of
        None \<Rightarrow> db_tasks w
      | Some p \<Rightarrow>
          if approval_status p \<noteq> Some Pending then db_tasks w
          else run_statements (decision_statements Rejected Blocked now (or_default rb ''human'') i)
                 (db_tasks w))"
  by (simp add: POST_reject_def Let_def select_task_after_decision broadcastEvent_def
        split: option.splits)

lemma plan_inv_POST_approve:
  assumes "plan_inv (db_tasks w)" "targets_plan (db_tasks w) i"
  shows "plan_inv (db_tasks (snd (POST_approve now now_ws a i ab w)))"
  using assms plan_inv_decision[OF assms]
  by (simp add: db_tasks_POST_approve split: option.splits)

lemma plan_inv_POST_reject:
  assumes "plan_inv (db_tasks w)" "targets_plan (db_tasks w) i"
  shows "plan_inv (db_tasks (snd (POST_reject now now_ws a i rb reason w)))"
  using assms plan_inv_decision[OF assms]
  by (simp add: db_tasks_POST_reject split: option.splits)

lemma plan_inv_insert_child:
  assumes inv: "plan_inv rows" and p: "p \<in> set rows" "pending_parent pid p"
    and ins: "insert_task (subtask_row now sid pid ws ag i st) rows = Some rows1"
  shows "plan_inv rows1 \<and> p \<in> set rows1"
proof -
  let ?c = "subtask_row now sid pid ws ag i st"
  from ins have r1: "rows1 = rows @ [?c]" and fresh: "sid \<notin> set (map task_id rows)"
    by (auto simp: insert_task_def split: if_splits)
  from inv fresh have d: "distinct (map task_id rows1)" by (simp add: plan_inv_def r1)
  have "\<forall>c \<in> set rows1. \<forall>q. parent_task_id c = Some q \<longrightarrow>
            (\<exists>p \<in> set rows1. task_id p = q \<and> parent_task_id p = None
               \<and> approval_status c = approval_status p \<and> status c = status p)"
  proof (intro ballI allI impI)
    fix c q assume c: "c \<in> set rows1" and par: "parent_task_id c = Some q"
    show "\<exists>p \<in> set rows1. task_id p = q \<and> parent_task_id p = None
               \<and> approval_status c = approval_status p \<and> status c = status p"
    proof (cases "c = ?c")
      case True
      with par have "q = pid" by (simp add: subtask_row_def)
      with True p show ?thesis
        by (intro bexI[of _ p]) (simp_all add: r1 pending_parent_def subtask_row_def)
    next
      case False
      with c have "c \<in> set rows" by (simp add: r1)
      with inv par obtain p' where "p' \<in> set rows" "task_id p' = q" "parent_task_id p' = None"
        "approval_status c = approval_status p'" "status c = status p'"
        unfolding plan_inv_def by blast
      then show ?thesis by (intro bexI[of _ p']) (simp_all add: r1)
    qed
  qed
  with d p show ?thesis unfolding plan_inv_def by (simp add: r1)
qed

lemma plan_inv_create_subtasks:
  assumes "plan_inv rows" "p \<in> set rows" "pending_parent pid p"
  shows "case create_subtasks now uuid pid ws ag i sts rows acc of
           Inl rows2 \<Rightarrow> plan_inv rows2
         | Inr res \<Rightarrow> plan_inv (fst res)"
  using assms
proof (induction sts arbitrary: i rows acc)
  case Nil
  then show ?case by simp
next
  case (Cons st rest)
  show ?case
  proof (cases "insert_task (subtask_row now (uuid (Suc i)) pid ws ag i st) rows")
    case None
    with Cons.prems show ?thesis by (simp add: Let_def)
  next
    case (Some rows1)
    from plan_inv_insert_child[OF Cons.prems(1,2,3) Some]
    have 1: "plan_inv rows1" and 2: "p \<in> set rows1" by simp_all
    from Cons.IH[OF 1 2 Cons.prems(3)] Some show ?thesis by (simp add: Let_def)
  qed
qed

lemma plan_inv_insert_parent:
  assumes inv: "plan_inv rows"
    and ins: "insert_task (parent_row now pid ws ag sk pt) rows = Some rows1"
  shows "plan_inv rows1 \<and> parent_row now pid ws ag sk pt \<in> set rows1
     \<and> pending_parent pid (parent_row now pid ws ag sk pt)"
proof -
  let ?p = "parent_row now pid ws ag sk pt"
  from ins have r1: "rows1 = rows @ [?p]" and fresh: "pid \<notin> set (map task_id rows)"
    by (auto simp: insert_task_def parent_row_def split: if_splits)
  from inv fresh have d: "distinct (map task_id rows1)"
    by (simp add: plan_inv_def r1 parent_row_def)
  have "\<forall>c \<in> set rows1. \<forall>q. parent_task_id c = Some q \<longrightarrow>
            (\<exists>p \<in> set rows1. task_id p = q \<and> parent_task_id p = None
               \<and> approval_status c = approval_status p \<and> status c = status p)"
  proof (intro ballI allI impI)
    fix c q assume c: "c \<in> set rows1" and par: "parent_task_id c = Some q"
    then have "c \<noteq> ?p" by (auto simp: parent_row_def)
    with c have "c \<in> set rows" by (simp add: r1)
    with inv par obtain p' where "p' \<in> set rows" "task_id p' = q" "parent_task_id p' = None"
      "approval_status c = approval_status p'" "status c = status p'"
      unfolding plan_inv_def by blast
    then show "\<exists>p \<in> set rows1. task_id p = q \<and> parent_task_id p = None
               \<and> approval_status c = approval_status p \<and> status c = status p"
      by (intro bexI[of _ p']) (simp_all add: r1)
  qed
  with d show ?thesis unfolding plan_inv_def
    by (simp add: r1 pending_parent_def parent_row_def)
qed

lemma POST_plans_invalid:
  assumes "parent_task body = None \<or> (\<exists>pt. parent_task body = Some pt \<and> req_title pt = [])
     \<or> req_subtasks body = None \<or> req_subtasks body = Some []"
  shows "snd (POST_plans now uuid body w) = w"
  using assms by (auto simp: POST_plans_def split: option.splits)

lemma plan_inv_POST_plans:
  assumes inv: "plan_inv (db_tasks w)"
  shows "plan_inv (db_tasks (snd (POST_plans now uuid body w)))"
proof (cases "parent_task body = None \<or> (\<exists>pt. parent_task body = Some pt \<and> req_title pt = [])
     \<or> req_subtasks body = None \<or> req_subtasks body = Some []")
  case True
  from POST_plans_invalid[OF True] inv show ?thesis by simp
next
  case False
  then obtain pt sts where v: "parent_task body = Some pt" "req_title pt \<noteq> []"
    "req_subtasks body = Some sts" "sts \<noteq> []" by auto
  let ?ws = "or_default (req_workspace_id pt) ''default''"
  let ?pr = "parent_row now (uuid 0) ?ws (req_agent_id body) (session_key body) pt"
  note e = POST_plans_valid[OF v, of now uuid w]
  show ?thesis
  proof (cases "insert_task ?pr (db_tasks w)")
    case None
    then show ?thesis using inv by (simp add: e)
  next
    case (Some rows1)
    from plan_inv_insert_parent[OF inv Some]
    have 1: "plan_inv rows1" and 2: "?pr \<in> set rows1" and 3: "pending_parent (uuid 0) ?pr"
      by simp_all
    note cs = plan_inv_create_subtasks[OF 1 2 3, of now uuid ?ws "req_agent_id body" 0 sts "[]"]
    show ?thesis
    proof (cases "create_subtasks now uuid (uuid 0) ?ws (req_agent_id body) 0 sts rows1 []")
      case (Inl rows2)
      with cs Some show ?thesis by (simp add: e)
    next
      case (Inr res)
      obtain rows2 objs where res: "res = (rows2, objs)" by (cases res)
      from cs Inr res have "plan_inv rows2" by simp
      with Some Inr res show ?thesis by (simp add: e broadcastEvent_def)
    qed
  qed
qed

lemma reachable_plan_inv: "reachable w \<Longrightarrow> plan_inv (db_tasks w)"
proof (induction rule: reachable.induct)
  case (start w)
  then show ?case by (simp add: plan_inv_def)
next
  case (createPlan w now uuid body)
  then show ?case by (simp add: plan_inv_POST_plans)
next
  case (approve w i now now_ws a ab)
  then show ?case by (simp add: plan_inv_POST_approve)
next
  case (reject w i now now_ws a rb reason)
  then show ?case by (simp add: plan_inv_POST_reject)
qed

lemma wf_server_on_connection:
  assumes "wf_server srv"
  shows "wf_server (on_connection now srv)"
proof -
  let ?id = "''client_'' @ string_of_nat (Suc (clientIdCounter srv))"
  let ?c = "\<lparr>readyState = OPEN, client_id = ?id,
             subscribedWorkspaces = [''default''], subscribedTasks = []\<rparr>"
  have "wf_server (srv\<lparr>clients := AList.update ?id ?c (clients srv)\<rparr>)"
    by (rule wf_server_update[OF assms]) simp
  then show ?thesis
    by (simp add: wf_server_def on_connection_def Let_def)
qed

lemma wf_server_on_close:
  assumes "wf_server srv"
  shows "wf_server (on_close clientId srv)"
proof -
  from assms have "distinct (map fst (AList.delete clientId (clients srv)))"
    by (simp add: wf_server_def distinct_delete)
  moreover from assms
  have "list_all (\<lambda>(k, c). client_id c = k) (AList.delete clientId (clients srv))"
    by (auto simp: wf_server_def list_all_iff AList.delete_eq)
  ultimately show ?thesis by (simp add: wf_server_def on_close_def)
qed

lemma wf_server_handleMessage:
  assumes "wf_server srv"
  shows "wf_server (handleMessage clientId msg srv)"
proof (cases "map_of (clients srv) clientId")
  case None
  with assms show ?thesis by (simp add: handleMessage_def)
next
  case (Some c)
  from handleMessage_keeps[OF assms Some] show ?thesis by blast
qed

lemma wf_server_step: "wf_server srv \<Longrightarrow> wf_server (server_step e srv)"
  by (cases e) (simp_all add: wf_server_on_connection wf_server_handleMessage wf_server_on_close)

lemma wf_server_fold: "wf_server srv \<Longrightarrow> wf_server (fold server_step evs srv)"
  by (induction evs arbitrary: srv) (simp_all add: wf_server_step)

section \<open>Claims\<close>

text \<open>
  C7. \<^verbatim>\<open>createPlan\<close> with zero subtasks (an empty or a missing list) fails with a
  validation error, and the state it returns is the state it was given: no parent, child
  or activity row is written and nothing is handed to either transport.
\<close>

theorem createPlan_zero_subtasks:
  assumes "req_subtasks body = None \<or> req_subtasks body = Some []"
  shows "\<exists>m. POST_plans now uuid body w = (Inl (ValidationError m), w)"
  using assms by (auto simp: POST_plans_def split: option.splits)

theorem createPlan_zero_subtasks_witness:
  "(req_subtasks ((example_body None)\<lparr>req_subtasks := Some []\<rparr>) = None
      \<or> req_subtasks ((example_body None)\<lparr>req_subtasks := Some []\<rparr>) = Some [])
   \<and> (\<exists>m. POST_plans ''T1'' example_uuid ((example_body None)\<lparr>req_subtasks := Some []\<rparr>) empty_world
          = (Inl (ValidationError m), empty_world))"
proof
  show h: "req_subtasks ((example_body None)\<lparr>req_subtasks := Some []\<rparr>) = None
      \<or> req_subtasks ((example_body None)\<lparr>req_subtasks := Some []\<rparr>) = Some []"
    by simp
  show "\<exists>m. POST_plans ''T1'' example_uuid ((example_body None)\<lparr>req_subtasks := Some []\<rparr>) empty_world
          = (Inl (ValidationError m), empty_world)"
    by (rule createPlan_zero_subtasks[OF h])
qed

text \<open>
  C3. \<^verbatim>\<open>approve\<close> answers \<open>NotFoundError\<close> when no task has the id and
  \<open>InvalidStateError\<close> when the task's approval status is not \<^verbatim>\<open>pending\<close>; in both cases
  the state is returned as it was (no row changed, no event on either transport). When
  the task exists, a second \<^verbatim>\<open>approve\<close> of the same id answers \<open>InvalidStateError\<close>
  and leaves the state of the first call as it is.
\<close>

theorem approve_failures:
  "(select_task (db_tasks w) i = None \<longrightarrow>
      POST_approve now now_ws a i ab w = (Inl NotFoundError, w))
   \<and> (\<forall>p. select_task (db_tasks w) i = Some p \<and> approval_status p \<noteq> Some Pending \<longrightarrow>
      POST_approve now now_ws a i ab w = (Inl InvalidStateError, w))
   \<and> (select_task (db_tasks w) i \<noteq> None \<longrightarrow>
      (let w1 = snd (POST_approve now now_ws a i ab w)
       in POST_approve now' now_ws' a' i ab' w1 = (Inl InvalidStateError, w1)))"
proof (intro conjI impI allI)
  assume "select_task (db_tasks w) i = None"
  then show "POST_approve now now_ws a i ab w = (Inl NotFoundError, w)"
    by (simp add: POST_approve_def)
next
  fix p assume "select_task (db_tasks w) i = Some p \<and> approval_status p \<noteq> Some Pending"
  then show "POST_approve now now_ws a i ab w = (Inl InvalidStateError, w)"
    by (simp add: POST_approve_def)
next
  assume ex: "select_task (db_tasks w) i \<noteq> None"
  then obtain p where p: "select_task (db_tasks w) i = Some p" by auto
  show "let w1 = snd (POST_approve now now_ws a i ab w)
        in POST_approve now' now_ws' a' i ab' w1 = (Inl InvalidStateError, w1)"
  proof (cases "approval_status p = Some Pending")
    case True
    from approve_success_state[OF p True, of now now_ws a ab]
    obtain r w1 where 1: "POST_approve now now_ws a i ab w = (Inr r, w1)"
      and 2: "db_tasks w1 =
          run_statements (decision_statements Approved Inbox now (or_default ab ''human'') i)
            (db_tasks w)"
      by blast
    have "select_task (db_tasks w1) i
          = Some (set_decision Approved Inbox now (or_default ab ''human'') p)"
      by (simp add: 2 select_task_after_decision p)
    then have "POST_approve now' now_ws' a' i ab' w1 = (Inl InvalidStateError, w1)"
      by (simp add: POST_approve_def)
    with 1 show ?thesis by simp
  next
    case False
    with p have "POST_approve now now_ws a i ab w = (Inl InvalidStateError, w)"
      by (simp add: POST_approve_def)
    moreover from False p
    have "POST_approve now' now_ws' a' i ab' w = (Inl InvalidStateError, w)"
      by (simp add: POST_approve_def)
    ultimately show ?thesis by simp
  qed
qed

theorem approve_failures_witness:
  "select_task (db_tasks example_world) ''id0'' \<noteq> None
   \<and> select_task (db_tasks example_world) ''nope'' = None
   \<and> POST_approve ''T2'' ''T3'' ''act'' ''nope'' None example_world
       = (Inl NotFoundError, example_world)
   \<and> (let w1 = snd (POST_approve ''T2'' ''T3'' ''act'' ''id0'' None example_world)
      in POST_approve ''T4'' ''T5'' ''act2'' ''id0'' None w1 = (Inl InvalidStateError, w1))"
proof -
  have h1: "select_task (db_tasks example_world) ''id0'' \<noteq> None" by code_simp
  have h2: "select_task (db_tasks example_world) ''nope'' = None" by code_simp
  note t1 = approve_failures[of example_world "''nope''" "''T2''" "''T3''" "''act''" None]
  note t2 = approve_failures[of example_world "''id0''" "''T2''" "''T3''" "''act''" None
              "''T4''" "''T5''" "''act2''" None]
  from t1 h2 have "POST_approve ''T2'' ''T3'' ''act'' ''nope'' None example_world
       = (Inl NotFoundError, example_world)" by blast
  moreover from t2 h1
  have "let w1 = snd (POST_approve ''T2'' ''T3'' ''act'' ''id0'' None example_world)
        in POST_approve ''T4'' ''T5'' ''act2'' ''id0'' None w1 = (Inl InvalidStateError, w1)"
    by blast
  ultimately show ?thesis using h1 h2 by blast
qed

text \<open>
  C10. After a successful \<^verbatim>\<open>reject\<close>, the parent and every child carry the rejecter
  (\<^verbatim>\<open>human\<close> when the body names none) in \<^verbatim>\<open>approved_by\<close> and the handler's
  timestamp in \<^verbatim>\<open>approved_at\<close>: in the table, where the children are the ones the
  plan had before, and in the object the handler returns and broadcasts.
\<close>

theorem reject_stamps:
  assumes "POST_reject now now_ws a i rb reason w = (Inr r, w1)"
  shows "(\<exists>p. select_task (db_tasks w1) i = Some p
            \<and> approved_by p = Some (case rb of None \<Rightarrow> ''human'' | Some s \<Rightarrow> if s = [] then ''human'' else s) \<and> approved_at p = Some now)
     \<and> (\<forall>c \<in> set (db_tasks w1). parent_task_id c = Some i \<longrightarrow>
            approved_by c = Some (case rb of None \<Rightarrow> ''human'' | Some s \<Rightarrow> if s = [] then ''human'' else s) \<and> approved_at c = Some now)
     \<and> map task_id (select_subtasks (db_tasks w1) i) = map task_id (select_subtasks (db_tasks w) i)
     \<and> approved_by r = Some (case rb of None \<Rightarrow> ''human'' | Some s \<Rightarrow> if s = [] then ''human'' else s) \<and> approved_at r = Some now
     \<and> (\<forall>c \<in> set (subtasks r).
            approved_by c = Some (case rb of None \<Rightarrow> ''human'' | Some s \<Rightarrow> if s = [] then ''human'' else s) \<and> approved_at c = Some now)"
proof -
  let ?who = "or_default rb ''human''"
  let ?d = "set_decision Rejected Blocked now ?who"
  from reject_Inr[OF assms] obtain p where
    p: "select_task (db_tasks w) i = Some p" and
    db: "db_tasks w1 = run_statements (decision_statements Rejected Blocked now ?who i) (db_tasks w)" and
    r: "r = with_subtasks (with_parsed_tags (?d p)) (map with_parsed_tags (select_subtasks (db_tasks w1) i))"
    by blast
  have 1: "select_task (db_tasks w1) i = Some (?d p)"
    by (simp add: db select_task_after_decision p)
  have 2: "approved_by (?d p) = Some ?who \<and> approved_at (?d p) = Some now"
    by (simp add: set_decision_def)
  have 3: "\<forall>c \<in> set (db_tasks w1). parent_task_id c = Some i \<longrightarrow>
            approved_by c = Some ?who \<and> approved_at c = Some now"
    by (auto simp: db run_decision_statements in_plan_def set_decision_def)
  have 4: "select_subtasks (db_tasks w1) i = map ?d (select_subtasks (db_tasks w) i)"
    by (simp add: db select_subtasks_after_decision)
  have 5: "map task_id (select_subtasks (db_tasks w1) i) = map task_id (select_subtasks (db_tasks w) i)"
    by (simp add: 4 comp_def)
  have 6: "approved_by r = Some ?who \<and> approved_at r = Some now"
    by (simp add: r with_subtasks_def with_parsed_tags_def retag_def set_decision_def)
  have 7: "\<forall>c \<in> set (subtasks r). approved_by c = Some ?who \<and> approved_at c = Some now"
    by (auto simp: r 4 with_subtasks_def with_parsed_tags_def retag_def set_decision_def)
  have e: "?who = (case rb of None \<Rightarrow> ''human'' | Some s \<Rightarrow> if s = [] then ''human'' else s)"
    by (simp add: or_default_def)
  from 1 2 3 5 6 7 show ?thesis unfolding e by blast
qed

theorem reject_stamps_witness:
  "\<not> isl (fst example_rejected)
   \<and> (\<exists>p. select_task (db_tasks (snd example_rejected)) ''id0'' = Some p
          \<and> approved_by p = Some ''alice'' \<and> approved_at p = Some ''T2'')
   \<and> list_all (\<lambda>c. approved_by c = Some ''alice'' \<and> approved_at c = Some ''T2'')
         (filter (\<lambda>c. parent_task_id c = Some ''id0'') (db_tasks (snd example_rejected)))
   \<and> \<not> isl (fst example_rejected_unnamed)
   \<and> list_all (\<lambda>c. approved_by c = Some ''human'' \<and> approved_at c = Some ''T2'')
         (filter (\<lambda>c. parent_task_id c = Some ''id0'')
            (db_tasks (snd example_rejected_unnamed)))"
proof -
  have h: "\<not> isl (fst example_rejected)" by code_simp
  then have ok: "POST_reject ''T2'' ''T3'' ''act'' ''id0'' (Some ''alice'')
        (Some ''scope too broad'') example_world
      = (Inr (projr (fst example_rejected)), snd example_rejected)"
    unfolding example_rejected_def by (metis prod.collapse sum.collapse(2))
  have h2: "\<not> isl (fst example_rejected_unnamed)" by code_simp
  then have ok2: "POST_reject ''T2'' ''T3'' ''act'' ''id0'' None
        (Some ''scope too broad'') example_world
      = (Inr (projr (fst example_rejected_unnamed)), snd example_rejected_unnamed)"
    unfolding example_rejected_unnamed_def by (metis prod.collapse sum.collapse(2))
  from reject_stamps[OF ok]
  have a: "(\<exists>p. select_task (db_tasks (snd example_rejected)) ''id0'' = Some p
          \<and> approved_by p = Some ''alice'' \<and> approved_at p = Some ''T2'')
     \<and> list_all (\<lambda>c. approved_by c = Some ''alice'' \<and> approved_at c = Some ''T2'')
         (filter (\<lambda>c. parent_task_id c = Some ''id0'') (db_tasks (snd example_rejected)))"
    unfolding list_all_iff by auto
  from reject_stamps[OF ok2]
  have b: "list_all (\<lambda>c. approved_by c = Some ''human'' \<and> approved_at c = Some ''T2'')
         (filter (\<lambda>c. parent_task_id c = Some ''id0'')
            (db_tasks (snd example_rejected_unnamed)))"
    unfolding list_all_iff by auto
  from h h2 a b show ?thesis by blast
qed

text \<open>
  C5. Approving a plan with \<open>k\<close> children: the table is the one given by the primary key
  (distinct ids) and the parent is not its own child. Then the rows of the plan in the new
  table number \<open>k + 1\<close>, each of them is \<^verbatim>\<open>approved\<close> and \<^verbatim>\<open>inbox\<close>, and every row
  outside the plan is the row it was, at the place it was.
\<close>

theorem approve_frame:
  assumes pk: "distinct (map task_id (db_tasks w))"
    and p: "select_task (db_tasks w) i = Some p"
    and top: "parent_task_id p \<noteq> Some i"
    and ok: "POST_approve now now_ws a i ab w = (Inr r, w1)"
  shows "length (filter (in_plan i) (db_tasks w1))
           = Suc (length (filter (\<lambda>t. parent_task_id t = Some i) (db_tasks w)))
     \<and> (\<forall>t \<in> set (db_tasks w1). in_plan i t \<longrightarrow>
            approval_status t = Some Approved \<and> status t = Inbox)
     \<and> length (db_tasks w1) = length (db_tasks w)
     \<and> (\<forall>n < length (db_tasks w). \<not> in_plan i (db_tasks w ! n) \<longrightarrow>
            db_tasks w1 ! n = db_tasks w ! n)"
proof -
  let ?d = "set_decision Approved Inbox now (or_default ab ''human'')"
  let ?f = "\<lambda>r. if in_plan i r then ?d r else r"
  from approve_Inr[OF ok] have db: "db_tasks w1 = map ?f (db_tasks w)"
    by (auto simp: run_decision_statements)
  have one: "filter (\<lambda>t. task_id t = i) (db_tasks w) = [p]"
    by (rule filter_id_distinct[OF pk p])
  have disj: "\<forall>x \<in> set (db_tasks w). \<not> (task_id x = i \<and> parent_task_id x = Some i)"
  proof
    fix x assume x: "x \<in> set (db_tasks w)"
    show "\<not> (task_id x = i \<and> parent_task_id x = Some i)"
    proof
      assume h: "task_id x = i \<and> parent_task_id x = Some i"
      with x have "x \<in> set (filter (\<lambda>t. task_id t = i) (db_tasks w))" by simp
      with one have "x = p" by simp
      with h top show False by simp
    qed
  qed
  have "length (filter (in_plan i) (db_tasks w1)) = length (filter (in_plan i) (db_tasks w))"
    by (simp add: db filter_in_plan_after_decision)
  also have "\<dots> = length (filter (\<lambda>t. task_id t = i) (db_tasks w))
                  + length (filter (\<lambda>t. parent_task_id t = Some i) (db_tasks w))"
    unfolding in_plan_def by (rule length_filter_disj[OF disj])
  also have "\<dots> = Suc (length (filter (\<lambda>t. parent_task_id t = Some i) (db_tasks w)))"
    by (simp add: one)
  finally have 1: "length (filter (in_plan i) (db_tasks w1))
           = Suc (length (filter (\<lambda>t. parent_task_id t = Some i) (db_tasks w)))" .
  have 2: "\<forall>t \<in> set (db_tasks w1). in_plan i t \<longrightarrow>
            approval_status t = Some Approved \<and> status t = Inbox"
    by (auto simp: db)
  have 3: "length (db_tasks w1) = length (db_tasks w)" by (simp add: db)
  have 4: "\<forall>n < length (db_tasks w). \<not> in_plan i (db_tasks w ! n) \<longrightarrow>
            db_tasks w1 ! n = db_tasks w ! n"
    by (simp add: db)
  from 1 2 3 4 show ?thesis by blast
qed

theorem approve_frame_witness:
  "distinct (map task_id (db_tasks example_world))
   \<and> \<not> isl (fst example_approved)
   \<and> length (filter (in_plan ''id0'') (db_tasks (snd example_approved))) = 3
   \<and> list_all (\<lambda>t. approval_status t = Some Approved \<and> status t = Inbox)
         (filter (in_plan ''id0'') (db_tasks (snd example_approved)))"
proof -
  have pk: "distinct (map task_id (db_tasks example_world))" by code_simp
  have p: "select_task (db_tasks example_world) ''id0''
      = Some (parent_row ''T1'' ''id0'' ''default'' ''dev'' None (draft ''Ship v2'' None))"
    by code_simp
  have top: "parent_task_id (parent_row ''T1'' ''id0'' ''default'' ''dev'' None
      (draft ''Ship v2'' None)) \<noteq> Some ''id0''"
    by (simp add: parent_row_def)
  have h: "\<not> isl (fst example_approved)" by code_simp
  then have ok: "POST_approve ''T2'' ''T3'' ''act'' ''id0'' None example_world
      = (Inr (projr (fst example_approved)), snd example_approved)"
    unfolding example_approved_def by (metis prod.collapse sum.collapse(2))
  have k: "length (filter (\<lambda>t. parent_task_id t = Some ''id0'') (db_tasks example_world)) = 2"
    by code_simp
  from approve_frame[OF pk p top ok] pk h show ?thesis unfolding k list_all_iff by auto
qed

text \<open>
  C6. \<^verbatim>\<open>createPlan\<close> with a titled parent and a non-empty child list succeeds when the
  ids it draws are fresh, and whenever it succeeds it appends the parent row and one row
  per draft: parent and children are \<^verbatim>\<open>pending\<close> and \<^verbatim>\<open>pending_approval\<close>, the
  \<open>j\<close>-th child names the parent's id as its parent and has position \<open>j\<close>, and the tags
  of every record are \<^verbatim>\<open>agentic\<close> followed by the caller's tags, in the rows (as JSON
  text) and in the object returned.
\<close>

theorem createPlan_records:
  assumes "parent_task body = Some pt" "req_title pt \<noteq> []" "req_subtasks body = Some sts"
    "sts \<noteq> []"
  shows "(fresh_ids uuid (length sts) (db_tasks w) \<longrightarrow>
            (\<exists>plan w1. POST_plans now uuid body w = (Inr plan, w1)))
     \<and> (\<forall>plan w1. POST_plans now uuid body w = (Inr plan, w1) \<longrightarrow>
          (\<exists>parent children.
             db_tasks w1 = db_tasks w @ parent # children
             \<and> uuid 0 \<notin> set (map task_id (db_tasks w))
             \<and> task_id parent = uuid 0 \<and> task_id plan = uuid 0
             \<and> approval_status parent = Some Pending \<and> status parent = Pending_approval
             \<and> approval_status plan = Some Pending \<and> status plan = Pending_approval
             \<and> tags parent = Some (JsonText (''agentic'' # (case req_tags pt of None \<Rightarrow> [] | Some ts \<Rightarrow> ts)))
             \<and> tags plan = ''agentic'' # (case req_tags pt of None \<Rightarrow> [] | Some ts \<Rightarrow> ts)
             \<and> length children = length sts \<and> length (subtasks plan) = length sts
             \<and> (\<forall>j < length sts.
                   approval_status (children ! j) = Some Pending
                   \<and> status (children ! j) = Pending_approval
                   \<and> parent_task_id (children ! j) = Some (uuid 0)
                   \<and> sort_order (children ! j) = int j
                   \<and> title (children ! j) = req_title (sts ! j)
                   \<and> tags (children ! j)
                       = Some (JsonText (''agentic'' # (case req_tags (sts ! j) of None \<Rightarrow> [] | Some ts \<Rightarrow> ts)))
                   \<and> approval_status (subtasks plan ! j) = Some Pending
                   \<and> status (subtasks plan ! j) = Pending_approval
                   \<and> parent_task_id (subtasks plan ! j) = Some (uuid 0)
                   \<and> sort_order (subtasks plan ! j) = int j
                   \<and> title (subtasks plan ! j) = req_title (sts ! j)
                   \<and> tags (subtasks plan ! j) = ''agentic'' # (case req_tags (sts ! j) of None \<Rightarrow> [] | Some ts \<Rightarrow> ts))))"
proof (intro conjI impI allI)
  assume "fresh_ids uuid (length sts) (db_tasks w)"
  with assms show "\<exists>plan w1. POST_plans now uuid body w = (Inr plan, w1)"
    by (rule POST_plans_success)
next
  fix plan w1 assume ok: "POST_plans now uuid body w = (Inr plan, w1)"
  let ?ws = "or_default (req_workspace_id pt) ''default''"
  let ?pr = "parent_row now (uuid 0) ?ws (req_agent_id body) (session_key body) pt"
  let ?cs = "created_rows now uuid (uuid 0) ?ws (req_agent_id body) 0 sts"
  let ?os = "created_objs now uuid (uuid 0) ?ws (req_agent_id body) 0 sts"
  from POST_plans_Inr[OF assms ok]
  have db: "db_tasks w1 = db_tasks w @ ?pr # ?cs"
    and plan: "plan = created_parent now (uuid 0) ?ws (req_agent_id body) (session_key body) pt ?os"
    and nin: "uuid 0 \<notin> set (map task_id (db_tasks w))"
    by blast+
  have par: "task_id ?pr = uuid 0 \<and> approval_status ?pr = Some Pending
      \<and> status ?pr = Pending_approval
      \<and> tags ?pr = Some (JsonText (''agentic'' # (case req_tags pt of None \<Rightarrow> [] | Some ts \<Rightarrow> ts)))"
    by (simp add: parent_row_def JSON_stringify_def tags_or_empty_def)
  have pl: "task_id plan = uuid 0 \<and> approval_status plan = Some Pending
      \<and> status plan = Pending_approval
      \<and> tags plan = ''agentic'' # (case req_tags pt of None \<Rightarrow> [] | Some ts \<Rightarrow> ts)
      \<and> subtasks plan = ?os"
    by (simp add: plan created_parent_def tags_or_empty_def)
  have ch: "\<forall>j < length sts.
       approval_status (?cs ! j) = Some Pending
       \<and> status (?cs ! j) = Pending_approval
       \<and> parent_task_id (?cs ! j) = Some (uuid 0)
       \<and> sort_order (?cs ! j) = int j
       \<and> title (?cs ! j) = req_title (sts ! j)
       \<and> tags (?cs ! j) = Some (JsonText (''agentic'' # (case req_tags (sts ! j) of None \<Rightarrow> [] | Some ts \<Rightarrow> ts)))"
    by (simp add: created_rows_nth subtask_row_def JSON_stringify_def tags_or_empty_def)
  have ob: "\<forall>j < length sts.
       approval_status (?os ! j) = Some Pending
       \<and> status (?os ! j) = Pending_approval
       \<and> parent_task_id (?os ! j) = Some (uuid 0)
       \<and> sort_order (?os ! j) = int j
       \<and> title (?os ! j) = req_title (sts ! j)
       \<and> tags (?os ! j) = ''agentic'' # (case req_tags (sts ! j) of None \<Rightarrow> [] | Some ts \<Rightarrow> ts)"
    by (simp add: created_objs_nth subtask_obj_def tags_or_empty_def)
  show "\<exists>parent children.
             db_tasks w1 = db_tasks w @ parent # children
             \<and> uuid 0 \<notin> set (map task_id (db_tasks w))
             \<and> task_id parent = uuid 0 \<and> task_id plan = uuid 0
             \<and> approval_status parent = Some Pending \<and> status parent = Pending_approval
             \<and> approval_status plan = Some Pending \<and> status plan = Pending_approval
             \<and> tags parent = Some (JsonText (''agentic'' # (case req_tags pt of None \<Rightarrow> [] | Some ts \<Rightarrow> ts)))
             \<and> tags plan = ''agentic'' # (case req_tags pt of None \<Rightarrow> [] | Some ts \<Rightarrow> ts)
             \<and> length children = length sts \<and> length (subtasks plan) = length sts
             \<and> (\<forall>j < length sts.
                   approval_status (children ! j) = Some Pending
                   \<and> status (children ! j) = Pending_approval
                   \<and> parent_task_id (children ! j) = Some (uuid 0)
                   \<and> sort_order (children ! j) = int j
                   \<and> title (children ! j) = req_title (sts ! j)
                   \<and> tags (children ! j)
                       = Some (JsonText (''agentic'' # (case req_tags (sts ! j) of None \<Rightarrow> [] | Some ts \<Rightarrow> ts)))
                   \<and> approval_status (subtasks plan ! j) = Some Pending
                   \<and> status (subtasks plan ! j) = Pending_approval
                   \<and> parent_task_id (subtasks plan ! j) = Some (uuid 0)
                   \<and> sort_order (subtasks plan ! j) = int j
                   \<and> title (subtasks plan ! j) = req_title (sts ! j)
                   \<and> tags (subtasks plan ! j) = ''agentic'' # (case req_tags (sts ! j) of None \<Rightarrow> [] | Some ts \<Rightarrow> ts))"
  proof (intro exI[of _ ?pr] exI[of _ ?cs] conjI)
    show "db_tasks w1 = db_tasks w @ ?pr # ?cs" by (rule db)
    show "uuid 0 \<notin> set (map task_id (db_tasks w))" by (rule nin)
    show "length ?cs = length sts" by simp
    show "length (subtasks plan) = length sts" using pl by simp
    show "\<forall>j < length sts.
                   approval_status (?cs ! j) = Some Pending
                   \<and> status (?cs ! j) = Pending_approval
                   \<and> parent_task_id (?cs ! j) = Some (uuid 0)
                   \<and> sort_order (?cs ! j) = int j
                   \<and> title (?cs ! j) = req_title (sts ! j)
                   \<and> tags (?cs ! j)
                       = Some (JsonText (''agentic'' # (case req_tags (sts ! j) of None \<Rightarrow> [] | Some ts \<Rightarrow> ts)))
                   \<and> approval_status (subtasks plan ! j) = Some Pending
                   \<and> status (subtasks plan ! j) = Pending_approval
                   \<and> parent_task_id (subtasks plan ! j) = Some (uuid 0)
                   \<and> sort_order (subtasks plan ! j) = int j
                   \<and> title (subtasks plan ! j) = req_title (sts ! j)
                   \<and> tags (subtasks plan ! j) = ''agentic'' # (case req_tags (sts ! j) of None \<Rightarrow> [] | Some ts \<Rightarrow> ts)"
      using ch ob pl by metis
  qed (use par pl in simp_all)
qed

theorem createPlan_records_witness:
  "fresh_ids example_uuid
     (length [(draft ''Write tests'' None)\<lparr>req_tags := Some [''qa'', ''ci'']\<rparr>,
              draft ''Update docs'' None])
     (db_tasks empty_world)
   \<and> \<not> isl (fst example_created_tagged)
   \<and> (\<exists>parent children.
         db_tasks (snd example_created_tagged) = parent # children
         \<and> tags parent = Some (JsonText [''agentic'', ''release''])
         \<and> tags (children ! 0) = Some (JsonText [''agentic'', ''qa'', ''ci''])
         \<and> tags (children ! 1) = Some (JsonText [''agentic''])
         \<and> sort_order (children ! 0) = 0 \<and> sort_order (children ! 1) = 1
         \<and> parent_task_id (children ! 0) = Some ''id0''
         \<and> parent_task_id (children ! 1) = Some ''id0'')
   \<and> tags (projr (fst example_created_tagged)) = [''agentic'', ''release'']
   \<and> tags (subtasks (projr (fst example_created_tagged)) ! 0) = [''agentic'', ''qa'', ''ci'']
   \<and> tags (subtasks (projr (fst example_created_tagged)) ! 1) = [''agentic'']"
proof -
  let ?pt = "(draft ''Ship v2'' None)\<lparr>req_tags := Some [''release'']\<rparr>"
  let ?sts = "[(draft ''Write tests'' None)\<lparr>req_tags := Some [''qa'', ''ci'']\<rparr>,
              draft ''Update docs'' None]"
  have 1: "parent_task example_body_tagged = Some ?pt" by (simp add: example_body_tagged_def)
  have 2: "req_title ?pt \<noteq> []" by (simp add: draft_def)
  have 3: "req_subtasks example_body_tagged = Some ?sts" by (simp add: example_body_tagged_def)
  have 4: "?sts \<noteq> []" by simp
  have f: "fresh_ids example_uuid (length ?sts) (db_tasks empty_world)" by code_simp
  have u0: "example_uuid 0 = ''id0''" by code_simp
  note t = createPlan_records[OF 1 2 3 4, of example_uuid empty_world "''T1''"]
  from t f obtain plan w1 where
    ok: "POST_plans ''T1'' example_uuid example_body_tagged empty_world = (Inr plan, w1)"
    by blast
  then have x: "fst example_created_tagged = Inr plan" "snd example_created_tagged = w1"
    by (simp_all add: example_created_tagged_def)
  from t ok obtain parent children where c:
    "db_tasks w1 = db_tasks empty_world @ parent # children"
    "tags parent = Some (JsonText (''agentic'' # (case req_tags ?pt of None \<Rightarrow> [] | Some ts \<Rightarrow> ts)))"
    "tags plan = ''agentic'' # (case req_tags ?pt of None \<Rightarrow> [] | Some ts \<Rightarrow> ts)"
    "\<forall>j < length ?sts.
        approval_status (children ! j) = Some Pending
        \<and> status (children ! j) = Pending_approval
        \<and> parent_task_id (children ! j) = Some (example_uuid 0)
        \<and> sort_order (children ! j) = int j
        \<and> title (children ! j) = req_title (?sts ! j)
        \<and> tags (children ! j)
            = Some (JsonText (''agentic'' # (case req_tags (?sts ! j) of None \<Rightarrow> [] | Some ts \<Rightarrow> ts)))
        \<and> approval_status (subtasks plan ! j) = Some Pending
        \<and> status (subtasks plan ! j) = Pending_approval
        \<and> parent_task_id (subtasks plan ! j) = Some (example_uuid 0)
        \<and> sort_order (subtasks plan ! j) = int j
        \<and> title (subtasks plan ! j) = req_title (?sts ! j)
        \<and> tags (subtasks plan ! j)
            = ''agentic'' # (case req_tags (?sts ! j) of None \<Rightarrow> [] | Some ts \<Rightarrow> ts)"
    by blast
  from c(4)[rule_format, of 0] have j0:
    "tags (children ! 0) = Some (JsonText [''agentic'', ''qa'', ''ci''])"
    "sort_order (children ! 0) = 0" "parent_task_id (children ! 0) = Some ''id0''"
    "tags (subtasks plan ! 0) = [''agentic'', ''qa'', ''ci'']"
    by (simp_all add: u0)
  from c(4)[rule_format, of 1] have j1:
    "tags (children ! 1) = Some (JsonText [''agentic''])"
    "sort_order (children ! 1) = 1" "parent_task_id (children ! 1) = Some ''id0''"
    "tags (subtasks plan ! 1) = [''agentic'']"
    by (simp_all add: u0 draft_def)
  from c(1) have db: "db_tasks w1 = parent # children" by (simp add: empty_world_def)
  from c(2) have tp: "tags parent = Some (JsonText [''agentic'', ''release''])" by simp
  from c(3) have tl: "tags plan = [''agentic'', ''release'']" by simp
  have ex: "\<exists>parent children.
         db_tasks (snd example_created_tagged) = parent # children
         \<and> tags parent = Some (JsonText [''agentic'', ''release''])
         \<and> tags (children ! 0) = Some (JsonText [''agentic'', ''qa'', ''ci''])
         \<and> tags (children ! 1) = Some (JsonText [''agentic''])
         \<and> sort_order (children ! 0) = 0 \<and> sort_order (children ! 1) = 1
         \<and> parent_task_id (children ! 0) = Some ''id0''
         \<and> parent_task_id (children ! 1) = Some ''id0''"
    using db tp j0 j1 x(2) by blast
  from x(1) have nl: "\<not> isl (fst example_created_tagged)" by simp
  from x(1) have pr: "projr (fst example_created_tagged) = plan" by simp
  from f nl ex tl j0(4) j1(4) show ?thesis unfolding pr by blast
qed

text \<open>
  C8. A client is registered under \<open>cid\<close> in a well-formed server, and any sequence of
  inbound messages of that connection is handled. Then the client is still registered,
  and a broadcast to workspace \<open>w\<close> adds the frame to what its socket is sent, once,
  exactly when \<open>w\<close> or \<^verbatim>\<open>*\<close> is in its workspace filter at that moment and its socket is
  open (\<^verbatim>\<open>send\<close> skips a socket that is not); otherwise nothing is added. One message
  changes the filter as \<^verbatim>\<open>subscribe\<close> and \<^verbatim>\<open>unsubscribe\<close> say. A client that connects and
  subscribes to task ids only has the filter \<^verbatim>\<open>default\<close> of the connection handler: a
  plan update for workspace \<open>w\<close> reaches it exactly when \<open>w\<close> is \<^verbatim>\<open>default\<close>.
\<close>

theorem workspace_broadcast_reaches:
  assumes "wf_server srv" "map_of (clients srv) cid = Some c"
  shows "(\<exists>c1. map_of (clients (fold (handleMessage cid) msgs srv)) cid = Some c1
       \<and> readyState c1 = readyState c
       \<and> received cid (broadcastToWorkspace w m (fold (handleMessage cid) msgs srv))
          = received cid (fold (handleMessage cid) msgs srv)
            @ (if (w \<in> set (subscribedWorkspaces c1) \<or> ''*'' \<in> set (subscribedWorkspaces c1))
                  \<and> readyState c1 = OPEN
               then [m] else []))
     \<and> (\<exists>c1. map_of (clients (handleMessage cid msg srv)) cid = Some c1
       \<and> set (subscribedWorkspaces c1) =
          (if in_type msg = Subscribe
           then set (subscribedWorkspaces c) \<union> ids_of (workspaces (in_payload msg))
           else if in_type msg = Unsubscribe
           then set (subscribedWorkspaces c) - ids_of (workspaces (in_payload msg))
           else set (subscribedWorkspaces c)))
     \<and> received ''client_1'' (broadcastPlanUpdate now2 upd (Some w)
          (handleMessage ''client_1''
             \<lparr>in_type = Subscribe, in_payload = \<lparr>workspaces = None, tasks = Some ts\<rparr>\<rparr>
             (on_connection now new_server)))
       = received ''client_1''
          (handleMessage ''client_1''
             \<lparr>in_type = Subscribe, in_payload = \<lparr>workspaces = None, tasks = Some ts\<rparr>\<rparr>
             (on_connection now new_server))
         @ (if w = ''default''
            then [\<lparr>ws_type = Plan_update, ws_payload = PlanUpdatePayload upd,
                   timestamp = Some now2\<rparr>]
            else [])"
proof (intro conjI)
  from fold_handleMessage_keeps[OF assms, of msgs] obtain c1 where
    1: "wf_server (fold (handleMessage cid) msgs srv)"
    and 2: "map_of (clients (fold (handleMessage cid) msgs srv)) cid = Some c1"
    and 3: "readyState c1 = readyState c" by blast
  from received_broadcastToWorkspace[OF 1 2, of w m] 2 3
  show "\<exists>c1. map_of (clients (fold (handleMessage cid) msgs srv)) cid = Some c1
       \<and> readyState c1 = readyState c
       \<and> received cid (broadcastToWorkspace w m (fold (handleMessage cid) msgs srv))
          = received cid (fold (handleMessage cid) msgs srv)
            @ (if (w \<in> set (subscribedWorkspaces c1) \<or> ''*'' \<in> set (subscribedWorkspaces c1))
                  \<and> readyState c1 = OPEN
               then [m] else [])"
    by (auto simp: subscribed_to_def)
next
  show "\<exists>c1. map_of (clients (handleMessage cid msg srv)) cid = Some c1
       \<and> set (subscribedWorkspaces c1) =
          (if in_type msg = Subscribe
           then set (subscribedWorkspaces c) \<union> ids_of (workspaces (in_payload msg))
           else if in_type msg = Unsubscribe
           then set (subscribedWorkspaces c) - ids_of (workspaces (in_payload msg))
           else set (subscribedWorkspaces c))"
    by (rule handleMessage_filter[OF assms(2)])
next
  show "received ''client_1'' (broadcastPlanUpdate now2 upd (Some w)
          (handleMessage ''client_1''
             \<lparr>in_type = Subscribe, in_payload = \<lparr>workspaces = None, tasks = Some ts\<rparr>\<rparr>
             (on_connection now new_server)))
       = received ''client_1''
          (handleMessage ''client_1''
             \<lparr>in_type = Subscribe, in_payload = \<lparr>workspaces = None, tasks = Some ts\<rparr>\<rparr>
             (on_connection now new_server))
         @ (if w = ''default''
            then [\<lparr>ws_type = Plan_update, ws_payload = PlanUpdatePayload upd,
                   timestamp = Some now2\<rparr>]
            else [])"
    by (rule task_only_subscriber)
qed

theorem workspace_broadcast_reaches_witness:
  "wf_server (on_connection ''T0'' new_server)
   \<and> map_of (clients (on_connection ''T0'' new_server)) ''client_1''
       = Some \<lparr>readyState = OPEN, client_id = ''client_1'',
               subscribedWorkspaces = [''default''], subscribedTasks = []\<rparr>
   \<and> received ''client_1'' (broadcastToWorkspace ''ws2'' example_frame
         (fold (handleMessage ''client_1'') example_messages (on_connection ''T0'' new_server)))
       = received ''client_1''
           (fold (handleMessage ''client_1'') example_messages (on_connection ''T0'' new_server))
         @ [example_frame]
   \<and> received ''client_1'' (broadcastToWorkspace ''default'' example_frame
         (fold (handleMessage ''client_1'') example_messages (on_connection ''T0'' new_server)))
       = received ''client_1''
           (fold (handleMessage ''client_1'') example_messages (on_connection ''T0'' new_server))"
proof -
  let ?srv = "on_connection ''T0'' new_server"
  let ?c = "\<lparr>readyState = OPEN, client_id = ''client_1'',
               subscribedWorkspaces = [''default''], subscribedTasks = []\<rparr>"
  let ?c1 = "\<lparr>readyState = OPEN, client_id = ''client_1'',
               subscribedWorkspaces = [''ws2''], subscribedTasks = []\<rparr>"
  have h1: "wf_server ?srv" by code_simp
  have h2: "map_of (clients ?srv) ''client_1'' = Some ?c" by code_simp
  have lk: "map_of (clients (fold (handleMessage ''client_1'') example_messages ?srv)) ''client_1''
      = Some ?c1" by code_simp
  from workspace_broadcast_reaches[OF h1 h2, where msgs = example_messages
      and m = example_frame and w = "''ws2''", THEN conjunct1] lk
  have a: "received ''client_1'' (broadcastToWorkspace ''ws2'' example_frame
         (fold (handleMessage ''client_1'') example_messages ?srv))
       = received ''client_1'' (fold (handleMessage ''client_1'') example_messages ?srv)
         @ [example_frame]"
    by auto
  from workspace_broadcast_reaches[OF h1 h2, where msgs = example_messages
      and m = example_frame and w = "''default''", THEN conjunct1] lk
  have b: "received ''client_1'' (broadcastToWorkspace ''default'' example_frame
         (fold (handleMessage ''client_1'') example_messages ?srv))
       = received ''client_1'' (fold (handleMessage ''client_1'') example_messages ?srv)"
    by auto
  from h1 h2 a b show ?thesis by blast
qed

text \<open>
  C1. The claim asks for one transaction around the parent update and the children
  update. The handlers run them as two statements, each committed when it returns. In the
  scenario, the table after the first statement of \<^verbatim>\<open>approve\<close> alone has the parent
  \<^verbatim>\<open>approved\<close> and both children \<^verbatim>\<open>pending\<close>; the two statements together are
  what the handler writes.
\<close>

theorem decision_statements_counterexample:
  "map approval_status
     (run_statements (take 1 (decision_statements Approved Inbox ''T2'' ''human'' ''id0''))
        (db_tasks example_world))
   = [Some Approved, Some Pending, Some Pending]
   \<and> db_tasks (snd example_approved)
     = run_statements (decision_statements Approved Inbox ''T2'' ''human'' ''id0'')
         (db_tasks example_world)
   \<and> fst (POST_approve_upto 1 ''T2'' ''T3'' ''act'' ''id0'' None example_world) = None
   \<and> map approval_status
       (db_tasks (snd (POST_approve_upto 1 ''T2'' ''T3'' ''act'' ''id0'' None example_world)))
     = [Some Approved, Some Pending, Some Pending]"
  by code_simp

text \<open>
  C1, as amended. A call of \<^verbatim>\<open>approve\<close> or \<^verbatim>\<open>reject\<close> on a pending task issues the
  parent's update and the children's update as two statements, the parent's first, each
  committed when it returns and with no transaction around them. The handler stopped
  after its first statement has sent no response, and in the table it leaves the task
  with the given id carries the decision while every row with another id, its children
  among them, is the row it was. Stopped after the second statement, the table is the one
  of the completed call and the activity is not yet written. The completed call succeeds
  and every row of the plan carries the decision; run through all three statements, the
  stoppable handler is the handler.
\<close>

theorem decision_two_statements:
  assumes "select_task (db_tasks w) i = Some p" "approval_status p = Some Pending"
  shows "((\<forall>n. 3 \<le> n \<longrightarrow>
        POST_approve_upto n now now_ws a i ab w = (Some (fst (POST_approve now now_ws a i ab w)), snd (POST_approve now now_ws a i ab w)))
   \<and> \<not> isl (fst (POST_approve now now_ws a i ab w))
   \<and> fst (POST_approve_upto 1 now now_ws a i ab w) = None
   \<and> (\<exists>q. select_task (db_tasks (snd (POST_approve_upto 1 now now_ws a i ab w))) i = Some q
          \<and> approval_status q = Some Approved \<and> status q = Inbox)
   \<and> length (db_tasks (snd (POST_approve_upto 1 now now_ws a i ab w))) = length (db_tasks w)
   \<and> (\<forall>k < length (db_tasks w). task_id (db_tasks w ! k) \<noteq> i \<longrightarrow>
          db_tasks (snd (POST_approve_upto 1 now now_ws a i ab w)) ! k = db_tasks w ! k)
   \<and> fst (POST_approve_upto 2 now now_ws a i ab w) = None
   \<and> db_tasks (snd (POST_approve_upto 2 now now_ws a i ab w)) = db_tasks (snd (POST_approve now now_ws a i ab w))
   \<and> db_task_activities (snd (POST_approve_upto 2 now now_ws a i ab w)) = db_task_activities w
   \<and> (\<forall>t \<in> set (db_tasks (snd (POST_approve now now_ws a i ab w))). in_plan i t \<longrightarrow>
          approval_status t = Some Approved \<and> status t = Inbox))
   \<and> ((\<forall>n. 3 \<le> n \<longrightarrow>
        POST_reject_upto n now now_ws a i rb reason w = (Some (fst (POST_reject now now_ws a i rb reason w)), snd (POST_reject now now_ws a i rb reason w)))
   \<and> \<not> isl (fst (POST_reject now now_ws a i rb reason w))
   \<and> fst (POST_reject_upto 1 now now_ws a i rb reason w) = None
   \<and> (\<exists>q. select_task (db_tasks (snd (POST_reject_upto 1 now now_ws a i rb reason w))) i = Some q
          \<and> approval_status q = Some Rejected \<and> status q = Blocked)
   \<and> length (db_tasks (snd (POST_reject_upto 1 now now_ws a i rb reason w))) = length (db_tasks w)
   \<and> (\<forall>k < length (db_tasks w). task_id (db_tasks w ! k) \<noteq> i \<longrightarrow>
          db_tasks (snd (POST_reject_upto 1 now now_ws a i rb reason w)) ! k = db_tasks w ! k)
   \<and> fst (POST_reject_upto 2 now now_ws a i rb reason w) = None
   \<and> db_tasks (snd (POST_reject_upto 2 now now_ws a i rb reason w)) = db_tasks (snd (POST_reject now now_ws a i rb reason w))
   \<and> db_task_activities (snd (POST_reject_upto 2 now now_ws a i rb reason w)) = db_task_activities w
   \<and> (\<forall>t \<in> set (db_tasks (snd (POST_reject now now_ws a i rb reason w))). in_plan i t \<longrightarrow>
          approval_status t = Some Rejected \<and> status t = Blocked))"
  using approve_commits[OF assms, of now now_ws a ab] reject_commits[OF assms, of now now_ws a rb reason]
  by (rule conjI)

theorem decision_two_statements_witness:
  "select_task (db_tasks example_world) ''id0''
     = Some (parent_row ''T1'' ''id0'' ''default'' ''dev'' None (draft ''Ship v2'' None))
   \<and> approval_status (parent_row ''T1'' ''id0'' ''default'' ''dev'' None (draft ''Ship v2'' None))
     = Some Pending
   \<and> \<not> isl (fst (POST_approve ''T2'' ''T3'' ''act'' ''id0'' None example_world))
   \<and> fst (POST_approve_upto 1 ''T2'' ''T3'' ''act'' ''id0'' None example_world) = None
   \<and> (\<exists>q. select_task
              (db_tasks (snd (POST_approve_upto 1 ''T2'' ''T3'' ''act'' ''id0'' None example_world)))
              ''id0'' = Some q
          \<and> approval_status q = Some Approved \<and> status q = Inbox)
   \<and> db_tasks (snd (POST_approve_upto 2 ''T2'' ''T3'' ''act'' ''id0'' None example_world))
     = db_tasks (snd (POST_approve ''T2'' ''T3'' ''act'' ''id0'' None example_world))
   \<and> \<not> isl (fst (POST_reject ''T2'' ''T3'' ''act'' ''id0'' None None example_world))
   \<and> fst (POST_reject_upto 1 ''T2'' ''T3'' ''act'' ''id0'' None None example_world) = None"
proof -
  have h1: "select_task (db_tasks example_world) ''id0''
     = Some (parent_row ''T1'' ''id0'' ''default'' ''dev'' None (draft ''Ship v2'' None))"
    by code_simp
  have h2: "approval_status
      (parent_row ''T1'' ''id0'' ''default'' ''dev'' None (draft ''Ship v2'' None))
     = Some Pending"
    by (simp add: parent_row_def)
  note t = decision_two_statements[OF h1 h2, where now = "''T2''" and now_ws = "''T3''"
      and a = "''act''" and ab = None and rb = None and reason = None]
  from t[THEN conjunct1] t[THEN conjunct2] h1 h2 show ?thesis by blast
qed

text \<open>
  C2. The invariant holds in the scenario after \<^verbatim>\<open>createPlan\<close>. \<^verbatim>\<open>approve\<close> takes any
  task id: called with the id of the first child it succeeds, and that child is
  \<^verbatim>\<open>approved\<close> and \<^verbatim>\<open>inbox\<close> while its parent and its sibling are \<^verbatim>\<open>pending\<close> and
  \<^verbatim>\<open>pending_approval\<close>.
\<close>

theorem approve_child_breaks_invariant:
  "children_track_parent (db_tasks example_world)
   \<and> \<not> isl (fst example_child_approved)
   \<and> map (\<lambda>t. (task_id t, approval_status t, status t)) (db_tasks (snd example_child_approved))
     = [(''id0'', Some Pending, Pending_approval), (''id1'', Some Approved, Inbox),
        (''id2'', Some Pending, Pending_approval)]
   \<and> \<not> children_track_parent (db_tasks (snd example_child_approved))"
  by code_simp

text \<open>
  C4. A plan in workspace \<^verbatim>\<open>ws2\<close>, one socket client subscribed to \<^verbatim>\<open>default\<close> and one to
  \<^verbatim>\<open>ws2\<close>. \<^verbatim>\<open>createPlan\<close> hands its event to the push stream and sends nothing over the
  sockets. \<^verbatim>\<open>approve\<close> calls \<^verbatim>\<open>broadcastPlanUpdate\<close> without a workspace: the frame goes to
  the subscriber of \<^verbatim>\<open>default\<close>, and the subscriber of \<^verbatim>\<open>ws2\<close> gets none.
\<close>

theorem plan_update_scoped_to_default:
  "map workspace_id (db_tasks example_world_ws2) = [''ws2'', ''ws2'', ''ws2'']
   \<and> map (\<lambda>(k, c). (k, subscribedWorkspaces c)) (clients two_clients)
     = [(''client_1'', [''default'']), (''client_2'', [''ws2''])]
   \<and> map sse_type (sse_events example_world_ws2) = [Plan_created]
   \<and> sent (wsServer example_world_ws2) = sent two_clients
   \<and> \<not> isl (fst example_approved_ws2)
   \<and> map ws_type (received ''client_1'' (wsServer (snd example_approved_ws2)))
     = [Connected, Plan_update]
   \<and> map ws_type (received ''client_2'' (wsServer (snd example_approved_ws2)))
     = [Connected, Subscribed]"
  by code_simp

text \<open>
  C9. In the scenario after \<^verbatim>\<open>approve\<close>: the \<^verbatim>\<open>subtasks\<close> of the \<^verbatim>\<open>plan_update\<close> frame
  are the rows of the children as the table has them, and the plain read
  \<^verbatim>\<open>GET /api/plans?status=approved\<close> returns the same children with their tags parsed.
  Field for field the two differ: \<^verbatim>\<open>tags\<close> is a JSON string in the frame and an array in
  the read.
\<close>

theorem plan_update_tags_differ:
  "\<not> isl (fst example_approved)
   \<and> map frame_subtasks (filter (\<lambda>m. ws_type m = Plan_update)
          (received ''client_1'' (wsServer (snd example_approved))))
     = [select_subtasks (db_tasks (snd example_approved)) ''id0'']
   \<and> map task_id (GET_plans None (Some ''approved'') (snd example_approved)) = [''id0'']
   \<and> map (map with_parsed_tags \<circ> frame_subtasks) (filter (\<lambda>m. ws_type m = Plan_update)
          (received ''client_1'' (wsServer (snd example_approved))))
     = map subtasks (GET_plans None (Some ''approved'') (snd example_approved))
   \<and> map (map (retag row_tags_value) \<circ> frame_subtasks)
         (filter (\<lambda>m. ws_type m = Plan_update)
            (received ''client_1'' (wsServer (snd example_approved))))
     \<noteq> map (map (retag JsArray) \<circ> subtasks)
         (GET_plans None (Some ''approved'') (snd example_approved))
   \<and> map (map (tags \<circ> retag row_tags_value) \<circ> frame_subtasks)
         (filter (\<lambda>m. ws_type m = Plan_update)
            (received ''client_1'' (wsServer (snd example_approved))))
     = [[JsString (JsonText [''agentic'']), JsString (JsonText [''agentic''])]]
   \<and> map (map (tags \<circ> retag JsArray) \<circ> subtasks)
         (GET_plans None (Some ''approved'') (snd example_approved))
     = [[JsArray [''agentic''], JsArray [''agentic'']]]"
  by code_simp

section \<open>Further properties\<close>

text \<open>
  When \<^verbatim>\<open>approve\<close> and \<^verbatim>\<open>reject\<close> are only called with ids that name no child, every
  state that the three operations reach from an empty table satisfies the invariant: each
  child has the approval status and the status of its parent.
\<close>

theorem children_track_parent_on_plans:
  "reachable w \<Longrightarrow> children_track_parent (db_tasks w)"
  by (rule plan_inv_tracks[OF reachable_plan_inv])

theorem children_track_parent_on_plans_witness:
  "reachable (snd example_approved) \<and> children_track_parent (db_tasks (snd example_approved))"
proof -
  have 0: "reachable empty_world" by (rule reachable.start) (simp add: empty_world_def)
  have 1: "reachable example_world"
    unfolding example_world_def by (rule reachable.createPlan[OF 0])
  have tp: "targets_plan (db_tasks example_world) ''id0''" by code_simp
  have 2: "reachable (snd example_approved)"
    unfolding example_approved_def by (rule reachable.approve[OF 1 tp])
  from 2 children_track_parent_on_plans[OF 2] show ?thesis by blast
qed

text \<open>In these states the ids of the table are distinct, as its primary key demands.\<close>

theorem task_ids_stay_distinct: "reachable w \<Longrightarrow> distinct (map task_id (db_tasks w))"
  using reachable_plan_inv[of w] by (simp add: plan_inv_def)

theorem task_ids_stay_distinct_witness:
  "reachable example_world \<and> distinct (map task_id (db_tasks example_world))"
proof -
  have 0: "reachable empty_world" by (rule reachable.start) (simp add: empty_world_def)
  have 1: "reachable example_world"
    unfolding example_world_def by (rule reachable.createPlan[OF 0])
  from 1 task_ids_stay_distinct[OF 1] show ?thesis by blast
qed

text \<open>
  Every state the socket server reaches from a new server by connections, inbound
  messages and disconnections is well formed.
\<close>

theorem wf_server_reachable: "wf_server (fold server_step evs new_server)"
  by (rule wf_server_fold) (simp add: wf_server_def new_server_def)

text \<open>\<^verbatim>\<open>createPlan\<close> leaves the socket server as it is: it sends no frame to any client.\<close>

theorem createPlan_sends_no_frame: "wsServer (snd (POST_plans now uuid body w)) = wsServer w"
proof (cases "parent_task body = None \<or> (\<exists>pt. parent_task body = Some pt \<and> req_title pt = [])
     \<or> req_subtasks body = None \<or> req_subtasks body = Some []")
  case True
  from POST_plans_invalid[OF True] show ?thesis by simp
next
  case False
  then obtain pt sts where v: "parent_task body = Some pt" "req_title pt \<noteq> []"
    "req_subtasks body = Some sts" "sts \<noteq> []" by auto
  show ?thesis
    by (simp add: POST_plans_valid[OF v] broadcastEvent_def split: option.splits sum.splits)
qed

text \<open>
  A successful \<^verbatim>\<open>approve\<close> hands one event to the push stream, with the object it
  returns, and broadcasts one \<^verbatim>\<open>plan_update\<close> frame to the subscribers of \<^verbatim>\<open>default\<close>; the
  frame's subtasks are the children's rows as the table has them after the writes, and
  the returned object's subtasks are these rows with their tags parsed.
\<close>

theorem approve_broadcasts_store_rows:
  assumes "POST_approve now now_ws a i ab w = (Inr r, w1)"
  shows "wsServer w1 =
       broadcastToWorkspace ''default''
         \<lparr>ws_type = Plan_update,
          ws_payload = PlanUpdatePayload
            \<lparr>wsu_parent_task_id = i, wsu_subtasks = select_subtasks (db_tasks w1) i,
             wsu_status = Approved_update\<rparr>,
          timestamp = Some now_ws\<rparr>
         (wsServer w)
     \<and> sse_events w1 = sse_events w @ [\<lparr>sse_type = Plan_approved, sse_payload = r\<rparr>]
     \<and> subtasks r = map with_parsed_tags (select_subtasks (db_tasks w1) i)"
  using assms
  by (auto simp: POST_approve_def Let_def select_task_after_decision broadcastEvent_def
        broadcastPlanUpdate_def with_subtasks_def split: option.splits if_splits)

theorem approve_broadcasts_store_rows_witness:
  "\<not> isl (fst example_approved)
   \<and> sse_events (snd example_approved)
     = sse_events example_world
       @ [\<lparr>sse_type = Plan_approved, sse_payload = projr (fst example_approved)\<rparr>]
   \<and> subtasks (projr (fst example_approved))
     = map with_parsed_tags (select_subtasks (db_tasks (snd example_approved)) ''id0'')"
proof -
  have h: "\<not> isl (fst example_approved)" by code_simp
  then have ok: "POST_approve ''T2'' ''T3'' ''act'' ''id0'' None example_world
      = (Inr (projr (fst example_approved)), snd example_approved)"
    unfolding example_approved_def by (metis prod.collapse sum.collapse(2))
  from approve_broadcasts_store_rows[OF ok] h show ?thesis by blast
qed
end
